theory Spec2Isabelle
  imports Complex_Main "HOL-Library.Sublist"
begin

section \<open>Conventions of the embedding\<close>

text \<open>
  The repository is a Python program: \<open>src/model/util.py\<close> (locations and the
  great-circle distance), \<open>src/model/facility_location_model.py\<close> (instance
  generation, the MILP formulation on top of PuLP, the solve wrapper and the
  extraction of the solution) and a Streamlit front end.

  \<^item> Python floats are idealised as \<^typ>\<open>real\<close>: arithmetic and comparisons are
    exact. Rounding, NaN and infinities are outside the model. A column of a data frame
    has a dtype; the sum of an \<open>int64\<close> column wraps around at \<open>2^63\<close>, as NumPy's does.
  \<^item> The functions of Python's \<open>math\<close> module are not code of the repository. They
    are a parameter of the model (record \<open>math\<close> below), so that a statement
    proved for every \<open>math\<close> holds for the rounded library functions as well as for
    the exact ones (\<open>real_math\<close>).
  \<^item> Every exception is a value of type \<open>error\<close>; a function that can raise returns
    \<open>error + 'a\<close>, with \<open>Inl\<close> for the exception.
  \<^item> A \<open>Loc\<close> object has an identity. The class defines no \<open>__eq__\<close>, so Python's
    \<open>self == other\<close> on two \<open>Loc\<close> objects is the default comparison of
    \<open>object\<close>: it is true exactly when both are the same object.
\<close>

datatype error =
    DistanceError   \<comment> \<open>\<open>Exception('Error in distance for %s and %s' % (self, other))\<close>\<close>
  | ValueError      \<comment> \<open>raised by \<open>numpy.random.randint\<close> and \<open>DataFrame.sample\<close>\<close>
  | KeyError        \<comment> \<open>a row label or dictionary key that does not exist\<close>
  | TypeError       \<comment> \<open>comparison of \<open>None\<close> with a float\<close>

definition bindE :: "'e + 'a \<Rightarrow> ('a \<Rightarrow> 'e + 'b) \<Rightarrow> 'e + 'b" where
  "bindE r f = (case r of Inl e \<Rightarrow> Inl e | Inr v \<Rightarrow> f v)"

fun traverse :: "('a \<Rightarrow> 'e + 'b) \<Rightarrow> 'a list \<Rightarrow> 'e + 'b list" where
  "traverse f [] = Inr []"
| "traverse f (x # xs) =
     (case f x of
        Inl e \<Rightarrow> Inl e
      | Inr y \<Rightarrow> (case traverse f xs of Inl e \<Rightarrow> Inl e | Inr ys \<Rightarrow> Inr (y # ys)))"

section \<open>\<open>util.py\<close>: locations and distance\<close>

record math =
  m_sin :: "real \<Rightarrow> real"
  m_cos :: "real \<Rightarrow> real"
  m_acos :: "real \<Rightarrow> real"
  m_pi :: real

definition real_math :: math where
  "real_math = \<lparr>m_sin = sin, m_cos = cos, m_acos = arccos, m_pi = pi\<rparr>"

record Loc =
  ident :: nat   \<comment> \<open>the identity of the object\<close>
  lat :: real
  lon :: real

text \<open>\<open>self == other\<close> for two \<open>Loc\<close> objects: identity, since \<open>Loc\<close> has no \<open>__eq__\<close>.\<close>

definition loc_eq :: "Loc \<Rightarrow> Loc \<Rightarrow> bool" where
  "loc_eq a b = (ident a = ident b)"

text \<open>Lines 30 to 32 of \<open>haversine_distance\<close>: the cosine-law value \<open>v\<close>.\<close>

definition cos_law :: "math \<Rightarrow> Loc \<Rightarrow> Loc \<Rightarrow> real" where
  "cos_law M self other =
     m_sin M (lat self * m_pi M / 180) * m_sin M (lat other * m_pi M / 180)
     + m_cos M (lat self * m_pi M / 180) * m_cos M (lat other * m_pi M / 180)
       * m_cos M (lon other * m_pi M / 180 - lon self * m_pi M / 180)"

text \<open>Lines 35 to 38: the value of \<open>v\<close> after the two tolerance branches.\<close>

definition clamp_v :: "real \<Rightarrow> real" where
  "clamp_v v =
     (if 1.0 < v \<and> v < 1.01 then 1.0
      else if - 1.01 < v \<and> v < - 1.0 then - 1.0
      else v)"

text \<open>Lines 35 to 43: everything \<open>haversine_distance\<close> does once \<open>v\<close> is known.\<close>

definition distance_of_v :: "math \<Rightarrow> real \<Rightarrow> error + real" where
  "distance_of_v M v =
     (let v' = clamp_v v
      in if v' < - 1 \<or> v' > 1 then Inl DistanceError
         else Inr (6378 * m_acos M v'))"

definition haversine_distance :: "math \<Rightarrow> Loc \<Rightarrow> Loc \<Rightarrow> error + real" where
  "haversine_distance M self other =
     (if loc_eq self other then Inr 0.0
      else distance_of_v M (cos_law M self other))"

subsection \<open>\<open>get_random_us_locs\<close>\<close>

text \<open>
  \<open>usa_zips\<close> is read from \<open>data/USA_zips.csv\<close>, which is not part of the sources:
  the table is a parameter. The state of NumPy's global generator is a stream of raw
  draws; how a position or a bounded integer is derived from a raw draw (by \<open>mod\<close>) is
  a choice of the model that keeps every result in the documented range.
\<close>

record zip_row =
  zip_lat :: real
  zip_lon :: real
  zip_pop :: real

type_synonym rng = "nat \<Rightarrow> nat"

text \<open>\<open>DataFrame.sample(n)\<close>: \<open>n\<close> rows at distinct positions, without replacement.\<close>

fun sample_rows :: "rng \<Rightarrow> 'a list \<Rightarrow> nat \<Rightarrow> 'a list \<times> rng" where
  "sample_rows g xs 0 = ([], g)"
| "sample_rows g xs (Suc n) =
     (let i = g 0 mod length xs;
          r = sample_rows (\<lambda>k. g (Suc k)) (take i xs @ drop (Suc i) xs) n
      in (xs ! i # fst r, snd r))"

definition get_random_us_locs :: "zip_row list \<Rightarrow> rng \<Rightarrow> nat \<Rightarrow> error + (zip_row list \<times> rng)" where
  "get_random_us_locs usa_zips g n =
     (if n > length usa_zips then Inl ValueError
      else Inr (sample_rows g usa_zips n))"

section \<open>\<open>facility_location_model.py\<close>\<close>

definition eps :: real where
  "eps = 0.0001"

subsection \<open>\<open>Instance\<close>\<close>

text \<open>
  The two data frames are lists of rows; the row label is the position
  (\<open>get_random_us_locs\<close> sets the index to \<open>range(len(ret))\<close>). The column \<open>volume\<close>
  exists only after \<open>get_solution\<close> has run. The constructor stores its arguments and
  checks nothing but the type of the two counts, which need not agree with the numbers
  of rows; the counts are natural numbers here.
\<close>

record customer_row =
  c_lat :: real
  c_lon :: real
  c_loc :: Loc
  demand :: real
  c_volume :: "real option"

record site_row =
  s_lat :: real
  s_lon :: real
  fixed_cost :: real
  capacity :: real
  s_loc :: Loc
  s_volume :: "real option"

text \<open>
  The dtype of a numeric column: \<open>int64\<close> (what \<open>numpy.random.randint\<close> produces) or
  \<open>float64\<close>. The entries of a column are reals in both cases; those of an \<open>int64\<close>
  column are whole numbers.
\<close>

datatype dtype = Int64 | Float64

text \<open>
  The attributes of \<open>Instance\<close>, with the dtypes of the two columns that are summed,
  \<open>customers['demand']\<close> and \<open>sites['capacity']\<close>.
\<close>

record Instance =
  n_customers :: nat
  customers :: "customer_row list"
  demand_dtype :: dtype
  n_sites :: nat
  sites :: "site_row list"
  capacity_dtype :: dtype
  shipping_cost :: real

text \<open>\<open>Series.sum()\<close>: the sum of an \<open>int64\<close> column is reduced into the range of \<open>int64\<close>.\<close>

definition wrap_int64 :: "int \<Rightarrow> int" where
  "wrap_int64 k = (k + 2 ^ 63) mod 2 ^ 64 - 2 ^ 63"

definition series_sum :: "dtype \<Rightarrow> real list \<Rightarrow> real" where
  "series_sum dt col =
     (case dt of
        Float64 \<Rightarrow> sum_list col
      | Int64 \<Rightarrow> real_of_int (wrap_int64 (sum_list (map floor col))))"

text \<open>\<open>df.loc[i, column]\<close>: the row labelled \<open>i\<close>, \<open>KeyError\<close> when there is none.\<close>

definition row :: "'a list \<Rightarrow> nat \<Rightarrow> error + 'a" where
  "row xs i = (if i < length xs then Inr (xs ! i) else Inl KeyError)"

text \<open>
  \<open>numpy.random.randint(low, high, size)\<close>, as NumPy from version 1.17 on implements
  it: an empty result for \<open>size = 0\<close> before any check of the bounds, \<open>ValueError\<close> for
  bounds outside \<open>int64\<close> or \<open>low >= high\<close> (tested as \<open>low > high - 1\<close>), otherwise
  \<open>size\<close> integers of the half-open interval from \<open>low\<close> to \<open>high\<close>.
\<close>

definition randint :: "rng \<Rightarrow> int \<Rightarrow> int \<Rightarrow> nat \<Rightarrow> error + (int list \<times> rng)" where
  "randint g low high sz =
     (if sz = 0 then Inr ([], g)
      else if low < - (2 ^ 63) \<or> high - 1 > 2 ^ 63 - 1 then Inl ValueError
      else if low > high - 1 then Inl ValueError
      else Inr (map (\<lambda>k. low + int (g k) mod (high - low)) [0..<sz], \<lambda>k. g (k + sz)))"

text \<open>
  \<open>Instance.generate\<close>. Each \<open>Loc(r[0], r[1])\<close> is a new object: the customers' locations
  get the identities \<open>0, ..., n_customers - 1\<close>, the sites' locations the next \<open>n_sites\<close>.
\<close>

definition generate ::
  "zip_row list \<Rightarrow> rng \<Rightarrow> nat \<Rightarrow> int \<times> int \<Rightarrow> nat \<Rightarrow> int \<times> int \<Rightarrow> int \<times> int \<Rightarrow> real
     \<Rightarrow> error + (Instance \<times> rng)" where
  "generate usa_zips g n_cust demand_range n_site capacity_range fixed_cost_range ship =
     bindE (get_random_us_locs usa_zips g n_cust) (\<lambda>(crows, g1).
     bindE (randint g1 (fst demand_range) (snd demand_range) n_cust) (\<lambda>(dem, g2).
     bindE (get_random_us_locs usa_zips g2 n_site) (\<lambda>(srows, g3).
     bindE (if fst fixed_cost_range = snd fixed_cost_range
            then Inr (replicate n_site (fst fixed_cost_range), g3)
            else randint g3 (fst fixed_cost_range) (snd fixed_cost_range) n_site) (\<lambda>(fc, g4).
     bindE (randint g4 (fst capacity_range) (snd capacity_range) n_site) (\<lambda>(cap, g5).
       Inr (\<lparr>n_customers = n_cust,
             customers = map (\<lambda>j. \<lparr>c_lat = zip_lat (crows ! j), c_lon = zip_lon (crows ! j),
                                    c_loc = \<lparr>ident = j, lat = zip_lat (crows ! j),
                                             lon = zip_lon (crows ! j)\<rparr>,
                                    demand = real_of_int (dem ! j), c_volume = None\<rparr>)
                             [0..<n_cust],
             demand_dtype = Int64,
             n_sites = n_site,
             sites = map (\<lambda>i. \<lparr>s_lat = zip_lat (srows ! i), s_lon = zip_lon (srows ! i),
                                fixed_cost = real_of_int (fc ! i),
                                capacity = real_of_int (cap ! i),
                                s_loc = \<lparr>ident = n_cust + i, lat = zip_lat (srows ! i),
                                         lon = zip_lon (srows ! i)\<rparr>,
                                s_volume = None\<rparr>)
                         [0..<n_site],
             capacity_dtype = Int64,
             shipping_cost = ship\<rparr>, g5))))))"

subsection \<open>The linear program held by \<open>pulp.LpProblem\<close>\<close>

text \<open>
  The variables \<open>y[i]\<close> and \<open>x[i][j]\<close>, and the variable \<open>__dummy\<close> that PuLP puts into
  an objective without terms.
\<close>

datatype var = Y nat | X nat nat | Dummy

text \<open>An \<open>LpAffineExpression\<close>: coefficient times variable, summed, plus a constant.\<close>

record affine =
  terms :: "(real \<times> var) list"
  constant_part :: real

datatype sense = LE | GE

record constraint =
  c_name :: string
  c_lhs :: affine
  c_sense :: sense
  c_rhs :: affine

datatype lp_status = NotSolved | Optimal | Infeasible | Unbounded | Undefined

text \<open>\<open>pulp.lpSum\<close> of a list of variables.\<close>

definition lpSum :: "var list \<Rightarrow> affine" where
  "lpSum vs = \<lparr>terms = map (\<lambda>v. (1, v)) vs, constant_part = 0\<rparr>"

text \<open>
  \<open>pulp.lpSum\<close> of a list of products \<open>c * v\<close> of a number and a variable. In PuLP the
  product of a variable with 0 is the empty expression: such a product leaves no term.
\<close>

definition lpSum_products :: "(real \<times> var) list \<Rightarrow> affine" where
  "lpSum_products ts = \<lparr>terms = filter (\<lambda>t. fst t \<noteq> 0) ts, constant_part = 0\<rparr>"

text \<open>The decimal digits of an index, as an f-string prints a Python \<open>int\<close>.\<close>

fun show_nat :: "nat \<Rightarrow> string" where
  "show_nat n =
     (if n < 10 then [char_of (48 + n)]
      else show_nat (n div 10) @ [char_of (48 + n mod 10)])"

declare show_nat.simps [simp del]

text \<open>A dictionary is an association list in insertion order; \<open>d[k]\<close> can raise.\<close>

definition dict_get :: "('k \<times> 'v) list \<Rightarrow> 'k \<Rightarrow> error + 'v" where
  "dict_get d k = (case map_of d k of None \<Rightarrow> Inl KeyError | Some v \<Rightarrow> Inr v)"

text \<open>\<open>Series.to_dict()\<close>: row label to value.\<close>

definition to_dict :: "'v list \<Rightarrow> (nat \<times> 'v) list" where
  "to_dict col = zip [0..<length col] col"

subsection \<open>\<open>Model\<close>\<close>

text \<open>
  The attributes of the \<open>Model\<close> object. \<open>status\<close> and \<open>varValue\<close> belong to the PuLP
  base class and its variables: \<open>LpStatusNotSolved\<close> and \<open>None\<close> until a solver has run.
  \<open>solver_calls\<close> is not a Python attribute: it records every call of the solver back end,
  with the time limit the call was given. The attribute \<open>start\<close> (wall-clock time) is left
  out.
\<close>

record Model =
  data :: Instance
  site_fixed_costs :: "(nat \<times> real) list"
  site_capacities :: "(nat \<times> real) list"
  total_demand :: real
  total_capacity :: real
  shipping_costs :: "((nat \<times> nat) \<times> real) list"
  objective :: affine
  constraints :: "constraint list"
  status :: lp_status
  varValue :: "var \<Rightarrow> real option"
  solver_calls :: "real option list"

text \<open>One entry of the dictionary comprehension \<open>self.shipping_costs\<close>.\<close>

definition shipping_cost_entry ::
  "math \<Rightarrow> Instance \<Rightarrow> nat \<times> nat \<Rightarrow> error + ((nat \<times> nat) \<times> real)" where
  "shipping_cost_entry M inst ij =
     bindE (row (sites inst) (fst ij)) (\<lambda>s.
     bindE (row (customers inst) (snd ij)) (\<lambda>c.
     bindE (haversine_distance M (s_loc s) (c_loc c)) (\<lambda>d.
       Inr (ij, shipping_cost inst * d))))"

text \<open>The constraint added for customer \<open>j\<close> under the name \<open>demand_j\<close>.\<close>

definition demand_constraint :: "Instance \<Rightarrow> nat \<Rightarrow> error + constraint" where
  "demand_constraint inst j =
     bindE (row (customers inst) j) (\<lambda>c.
       Inr \<lparr>c_name = ''demand_'' @ show_nat j,
            c_lhs = lpSum (map (\<lambda>i. X i j) [0..<n_sites inst]),
            c_sense = GE,
            c_rhs = \<lparr>terms = [], constant_part = demand c\<rparr>\<rparr>)"

text \<open>The constraint added for site \<open>i\<close> under the name \<open>capacity_i\<close>.\<close>

definition capacity_constraint ::
  "Instance \<Rightarrow> (nat \<times> real) list \<Rightarrow> real \<Rightarrow> nat \<Rightarrow> error + constraint" where
  "capacity_constraint inst caps td i =
     bindE (dict_get caps i) (\<lambda>cap.
       Inr \<lparr>c_name = ''capacity_'' @ show_nat i,
            c_lhs = lpSum (map (\<lambda>j. X i j) [0..<n_customers inst]),
            c_sense = LE,
            c_rhs = lpSum_products [(min cap td, Y i)]\<rparr>)"

text \<open>
  \<open>Model.__init__\<close>. The comprehensions run over \<open>s_ids = range(n_sites)\<close> and
  \<open>c_ids = range(n_customers)\<close>, sites outermost; the first exception ends the
  construction. The shipping terms of the objective read \<open>self.shipping_costs[i, j]\<close> in
  the order in which the dictionary was filled. The two totals are \<open>Series.sum()\<close> of the
  columns.
\<close>

definition Model_init :: "math \<Rightarrow> Instance \<Rightarrow> error + Model" where
  "Model_init M inst =
     (let s_ids = [0..<n_sites inst];
          c_ids = [0..<n_customers inst];
          sfc = to_dict (map fixed_cost (sites inst));
          caps = to_dict (map capacity (sites inst));
          td = series_sum (demand_dtype inst) (map demand (customers inst));
          tc = series_sum (capacity_dtype inst) (map capacity (sites inst))
      in bindE (traverse (shipping_cost_entry M inst) (List.product s_ids c_ids)) (\<lambda>sc.
         bindE (traverse (\<lambda>i. bindE (dict_get sfc i) (\<lambda>f. Inr (f, Y i))) s_ids) (\<lambda>fixed_terms.
         bindE (traverse (demand_constraint inst) c_ids) (\<lambda>dcs.
         bindE (traverse (capacity_constraint inst caps td) s_ids) (\<lambda>ccs.
           Inr \<lparr>data = inst,
                site_fixed_costs = sfc,
                site_capacities = caps,
                total_demand = td,
                total_capacity = tc,
                shipping_costs = sc,
                objective = lpSum_products
                              (fixed_terms @ map (\<lambda>(ij, c). (c, X (fst ij) (snd ij))) sc),
                constraints = dcs @ ccs,
                status = NotSolved,
                varValue = (\<lambda>_. None),
                solver_calls = []\<rparr>)))))"

subsection \<open>\<open>Model.solve\<close>\<close>

text \<open>
  The solver back end that \<open>pulp.LpProblem.solve\<close> runs is a parameter: given the problem
  and the time limit it was handed (\<open>None\<close> when it was handed none), it either returns a
  status and a value for the variables, or never returns (\<open>None\<close>). The formatting of a
  number inside an f-string is a parameter too (\<open>fmt\<close>).
\<close>

type_synonym backend = "Model \<Rightarrow> real option \<Rightarrow> (lp_status \<times> (var \<Rightarrow> real option)) option"

definition default_timeout_sec :: real where
  "default_timeout_sec = 120"

text \<open>
  What \<open>pulp.LpProblem.solve\<close> leaves in the problem when the solver has returned. An
  objective without terms gets the variable \<open>__dummy\<close> before the solver runs, and the
  variable is subtracted again afterwards, which leaves it in the objective with the
  coefficient 0. The values of the solver are assigned to every variable but \<open>__dummy\<close>.
\<close>

definition assign_solution :: "Model \<Rightarrow> lp_status \<times> (var \<Rightarrow> real option) \<Rightarrow> Model" where
  "assign_solution m r =
     m\<lparr>objective := (if terms (objective m) = []
                       then (objective m)\<lparr>terms := [(0, Dummy)]\<rparr>
                       else objective m),
       status := fst r,
       varValue := (\<lambda>x. if x = Dummy then varValue m Dummy else snd r x),
       solver_calls := solver_calls m @ [None]\<rparr>"

text \<open>\<open>super().solve()\<close>: no argument is passed, so the back end runs without a time limit.\<close>

definition super_solve :: "backend \<Rightarrow> Model \<Rightarrow> Model option" where
  "super_solve be m = map_option (assign_solution m) (be m None)"

definition solve ::
  "(real \<Rightarrow> string) \<Rightarrow> backend \<Rightarrow> real \<Rightarrow> Model \<Rightarrow> (Model \<times> lp_status \<times> string) option" where
  "solve fmt be timeout_sec m =
     (if total_demand m > total_capacity m
      then Some (m, Infeasible,
                 ''Total demand ('' @ fmt (total_demand m)
                 @ '') exceeds total capacity ('' @ fmt (total_capacity m) @ '')'')
      else (case super_solve be m of
              None \<Rightarrow> None
            | Some m' \<Rightarrow>
                (if status m' = Infeasible then Some (m', status m', ''Model is infeasible'')
                 else if status m' = NotSolved
                   then Some (m', status m', ''Model not solved to optimality'')
                 else Some (m', status m', ''Model optimal''))))"

subsection \<open>\<open>Model.get_solution\<close>\<close>

record flow_row =
  f_from :: nat
  from_type :: string
  f_to :: nat
  to_type :: string
  units :: real
  from_loc :: Loc
  from_lat :: real
  from_lon :: real
  to_loc :: Loc
  to_lat :: real
  to_lon :: real

text \<open>The dataclass \<open>Solution\<close>, without \<open>secs\<close> (wall-clock time).\<close>

record Solution =
  sol_instance :: Instance
  sol_status :: lp_status
  sol_value :: "real option"
  xs :: "((nat \<times> nat) \<times> real) list"
  ys :: "(nat \<times> real) list"
  flows :: "flow_row list"
  fixed_costs :: real
  variable_costs :: real

text \<open>
  \<open>pulp.value\<close> of an affine expression: \<open>None\<close> as soon as a variable has no value,
  otherwise the constant plus the sum of value times coefficient.
\<close>

fun value_terms :: "(var \<Rightarrow> real option) \<Rightarrow> real \<Rightarrow> (real \<times> var) list \<Rightarrow> real option" where
  "value_terms vv s [] = Some s"
| "value_terms vv s (t # ts) =
     (case vv (snd t) of
        None \<Rightarrow> None
      | Some v \<Rightarrow> value_terms vv (s + v * fst t) ts)"

definition pulp_value :: "(var \<Rightarrow> real option) \<Rightarrow> affine \<Rightarrow> real option" where
  "pulp_value vv e = value_terms vv (constant_part e) (terms e)"

text \<open>
  One step of a dictionary comprehension \<open>{k: v.varValue for k in ... if v.varValue > eps}\<close>:
  the comparison raises \<open>TypeError\<close> on \<open>None\<close>.
\<close>

definition read_var :: "(var \<Rightarrow> real option) \<Rightarrow> var \<Rightarrow> error + real" where
  "read_var vv x = (case vv x of None \<Rightarrow> Inl TypeError | Some v \<Rightarrow> Inr v)"

definition above_eps :: "('k \<times> real) list \<Rightarrow> ('k \<times> real) list" where
  "above_eps kvs = filter (\<lambda>kv. snd kv > eps) kvs"

definition flow_of :: "Instance \<Rightarrow> (nat \<times> nat) \<times> real \<Rightarrow> error + flow_row" where
  "flow_of inst e =
     bindE (row (sites inst) (fst (fst e))) (\<lambda>s.
     bindE (row (customers inst) (snd (fst e))) (\<lambda>c.
       Inr \<lparr>f_from = fst (fst e), from_type = ''site'',
            f_to = snd (fst e), to_type = ''customer'',
            units = snd e,
            from_loc = s_loc s, from_lat = lat (s_loc s), from_lon = lon (s_loc s),
            to_loc = c_loc c, to_lat = lat (c_loc c), to_lon = lon (c_loc c)\<rparr>))"

definition get_solution :: "Model \<Rightarrow> error + Solution" where
  "get_solution m =
     (let inst = data m;
          s_ids = [0..<n_sites inst];
          c_ids = [0..<n_customers inst]
      in bindE (traverse (\<lambda>i. bindE (read_var (varValue m) (Y i)) (\<lambda>v. Inr (i, v))) s_ids)
           (\<lambda>y_all.
         bindE (traverse (\<lambda>ij. bindE (read_var (varValue m) (X (fst ij) (snd ij)))
                                  (\<lambda>v. Inr (ij, v)))
                  (List.product s_ids c_ids)) (\<lambda>x_all.
         let yval = above_eps y_all;
             xval = above_eps x_all;
             sites' = map (\<lambda>x. (sites inst ! x)
                             \<lparr>s_volume := Some (sum_list (map snd (filter (\<lambda>e. fst (fst e) = x) xval)))\<rparr>)
                          [0..<length (sites inst)];
             customers' = map (\<lambda>x. (customers inst ! x)
                             \<lparr>c_volume := Some (sum_list (map snd (filter (\<lambda>e. snd (fst e) = x) xval)))\<rparr>)
                          [0..<length (customers inst)];
             inst' = inst\<lparr>customers := customers', sites := sites'\<rparr>
         in bindE (traverse (flow_of inst') xval) (\<lambda>fl.
            bindE (traverse (\<lambda>iv. bindE (dict_get (site_fixed_costs m) (fst iv))
                                     (\<lambda>f. bindE (dict_get yval (fst iv)) (\<lambda>v. Inr (f * v))))
                     yval) (\<lambda>fcs.
            bindE (traverse (\<lambda>e. bindE (dict_get (shipping_costs m) (fst e))
                                    (\<lambda>c. bindE (dict_get xval (fst e)) (\<lambda>v. Inr (c * v))))
                     xval) (\<lambda>vcs.
              Inr \<lparr>sol_instance = inst',
                   sol_status = status m,
                   sol_value = pulp_value (varValue m) (objective m),
                   xs = xval,
                   ys = yval,
                   flows = fl,
                   fixed_costs = sum_list fcs,
                   variable_costs = sum_list vcs\<rparr>))))))"

section \<open>Notions used to state the properties\<close>

text \<open>The value of an affine expression, and the truth of a constraint, under an assignment.\<close>

definition affine_eval :: "(var \<Rightarrow> real) \<Rightarrow> affine \<Rightarrow> real" where
  "affine_eval val e = sum_list (map (\<lambda>t. fst t * val (snd t)) (terms e)) + constant_part e"

definition holds :: "(var \<Rightarrow> real) \<Rightarrow> constraint \<Rightarrow> bool" where
  "holds val c =
     (case c_sense c of
        LE \<Rightarrow> affine_eval val (c_lhs c) \<le> affine_eval val (c_rhs c)
      | GE \<Rightarrow> affine_eval val (c_lhs c) \<ge> affine_eval val (c_rhs c))"

text \<open>
  An assignment the solver may return as a solution: every constraint holds, the \<open>y\<close> of
  the sites are binary and the \<open>x\<close> are not negative.
\<close>

definition feasible :: "Model \<Rightarrow> (var \<Rightarrow> real) \<Rightarrow> bool" where
  "feasible m val =
     (list_all (holds val) (constraints m)
      \<and> list_all (\<lambda>i. val (Y i) = 0 \<or> val (Y i) = 1) [0..<n_sites (data m)]
      \<and> list_all (\<lambda>ij. 0 \<le> val (X (fst ij) (snd ij)))
           (List.product [0..<n_sites (data m)] [0..<n_customers (data m)]))"




text \<open>A range that \<open>numpy.random.randint\<close> accepts.\<close>

definition proper_range :: "int \<times> int \<Rightarrow> bool" where
  "proper_range r = (- (2 ^ 63) \<le> fst r \<and> fst r < snd r \<and> snd r \<le> 2 ^ 63)"

section \<open>Concrete inputs\<close>

text \<open>An f-string prints a whole number by its decimal digits.\<close>

definition str_int :: "real \<Rightarrow> string" where
  "str_int r = show_nat (nat \<lfloor>r\<rfloor>)"

text \<open>
  One customer with demand 10 and one site with capacity 100 and fixed cost 1000, both
  at the point \<open>(0, 0)\<close>, as two \<open>Loc\<close> objects; shipping cost 1.
\<close>

definition inst_A :: Instance where
  "inst_A =
     \<lparr>n_customers = 1,
      customers = [\<lparr>c_lat = 0, c_lon = 0, c_loc = \<lparr>ident = 0, lat = 0, lon = 0\<rparr>,
                    demand = 10, c_volume = None\<rparr>],
      demand_dtype = Int64,
      n_sites = 1,
      sites = [\<lparr>s_lat = 0, s_lon = 0, fixed_cost = 1000, capacity = 100,
                s_loc = \<lparr>ident = 1, lat = 0, lon = 0\<rparr>, s_volume = None\<rparr>],
      capacity_dtype = Int64,
      shipping_cost = 1\<rparr>"


text \<open>
  One customer with demand 0.00005 on the equator at longitude 90, one site with
  capacity 1 and no fixed cost at \<open>(0, 0)\<close>; shipping cost 1.
\<close>

definition inst_small :: Instance where
  "inst_small =
     \<lparr>n_customers = 1,
      customers = [\<lparr>c_lat = 0, c_lon = 90, c_loc = \<lparr>ident = 0, lat = 0, lon = 90\<rparr>,
                    demand = 0.00005, c_volume = None\<rparr>],
      demand_dtype = Float64,
      n_sites = 1,
      sites = [\<lparr>s_lat = 0, s_lon = 0, fixed_cost = 0, capacity = 1,
                s_loc = \<lparr>ident = 1, lat = 0, lon = 0\<rparr>, s_volume = None\<rparr>],
      capacity_dtype = Float64,
      shipping_cost = 1\<rparr>"



definition stops_at_limit :: backend where
  "stops_at_limit =
     (\<lambda>m limit. case limit of None \<Rightarrow> None | Some t \<Rightarrow> Some (NotSolved, varValue m))"

text \<open>A back end that reports \<open>Optimal\<close> with the given values.\<close>

definition optimal_with :: "(var \<Rightarrow> real option) \<Rightarrow> backend" where
  "optimal_with vals = (\<lambda>m limit. Some (Optimal, vals))"

definition vals_A :: "var \<Rightarrow> real option" where
  "vals_A x = (case x of Y i \<Rightarrow> Some 0.999999 | X i j \<Rightarrow> Some 10 | Dummy \<Rightarrow> None)"

definition vals_small :: "var \<Rightarrow> real option" where
  "vals_small x = (case x of Y i \<Rightarrow> Some 1 | X i j \<Rightarrow> Some 0.00005 | Dummy \<Rightarrow> None)"

text \<open>
  The library functions as CPython computes them at 40 degrees: \<open>math.sin\<close> and
  \<open>math.cos\<close> return the doubles printed as 0.6427876096865393 and 0.766044443118978.
  Everywhere else the functions are the exact ones.
\<close>

definition rounded_math :: math where
  "rounded_math =
     \<lparr>m_sin = (\<lambda>x. if x = 40 * pi / 180 then 0.6427876096865393 else sin x),
      m_cos = (\<lambda>x. if x = 40 * pi / 180 then 0.766044443118978 else cos x),
      m_acos = arccos,
      m_pi = pi\<rparr>"

text \<open>A sine that leaves its range, to reach the branch of \<open>haversine_distance\<close> that raises.\<close>

definition overshooting_math :: math where
  "overshooting_math = \<lparr>m_sin = (\<lambda>x. 2), m_cos = cos, m_acos = arccos, m_pi = pi\<rparr>"

text \<open>A table of two places and a generator whose raw draws are all zero.\<close>

definition two_zips :: "zip_row list" where
  "two_zips = [\<lparr>zip_lat = 0, zip_lon = 0, zip_pop = 1\<rparr>, \<lparr>zip_lat = 0, zip_lon = 90, zip_pop = 1\<rparr>]"

definition zero_rng :: rng where
  "zero_rng = (\<lambda>k. 0)"

text \<open>
  The models built from \<open>inst_A\<close> and \<open>inst_small\<close>, and their states after a solver run that
  reports \<open>Optimal\<close> with the values above.
\<close>

definition model_A :: Model where
  "model_A = projr (Model_init real_math inst_A)"

definition solved_A :: Model where
  "solved_A = assign_solution model_A (Optimal, vals_A)"

definition model_small :: Model where
  "model_small = projr (Model_init real_math inst_small)"

definition solved_small :: Model where
  "solved_small = assign_solution model_small (Optimal, vals_small)"





section \<open>Auxiliary facts: results, traversals and dictionaries\<close>

lemma bindE_Inr [simp]: "bindE (Inr v) f = f v"
  by (simp add: bindE_def)

lemma bindE_Inl [simp]: "bindE (Inl e) f = Inl e"
  by (simp add: bindE_def)

lemma bindE_eq_Inr: "bindE r f = Inr y \<longleftrightarrow> (\<exists>v. r = Inr v \<and> f v = Inr y)"
  by (cases r) simp_all

lemma traverse_map: "(\<And>x. x \<in> set l \<Longrightarrow> f x = Inr (g x)) \<Longrightarrow> traverse f l = Inr (map g l)"
  by (induction l) simp_all

lemma traverse_Inr_list_all2: "traverse f l = Inr bs \<Longrightarrow> list_all2 (\<lambda>x y. f x = Inr y) l bs"
  by (induction l arbitrary: bs) (auto split: sum.splits)

lemma list_all2_traverse: "list_all2 (\<lambda>x y. f x = Inr y) l bs \<Longrightarrow> traverse f l = Inr bs"
  by (induction rule: list_all2_induct) auto

lemma traverse_Inr_iff: "traverse f l = Inr bs \<longleftrightarrow> list_all2 (\<lambda>x y. f x = Inr y) l bs"
  using traverse_Inr_list_all2 list_all2_traverse by blast

lemma traverse_InrD:
  assumes "traverse f l = Inr bs"
  shows "length bs = length l" and "\<And>k. k < length l \<Longrightarrow> f (l ! k) = Inr (bs ! k)"
  using assms by (auto simp: traverse_Inr_iff list_all2_conv_all_nth)

lemma traverse_Inr_map: "traverse f l = Inr bs \<Longrightarrow> bs = map (\<lambda>x. projr (f x)) l"
  by (induction l arbitrary: bs) (auto split: sum.splits)

lemma traverse_InlD: "traverse f l = Inl e \<Longrightarrow> \<exists>x\<in>set l. f x = Inl e"
  by (induction l) (auto split: sum.splits)

lemma traverse_InlI: "x \<in> set l \<Longrightarrow> f x = Inl e \<Longrightarrow> \<exists>e'. traverse f l = Inl e'"
  by (induction l) (auto split: sum.splits)

lemma dict_get_to_dict:
  "dict_get (to_dict col) i = (if i < length col then Inr (col ! i) else Inl KeyError)"
proof (cases "i < length col")
  case True
  have "map_of (zip [0..<length col] col) ([0..<length col] ! i) = Some (col ! i)"
    using True by (intro map_of_zip_nth) simp_all
  then show ?thesis using True by (simp add: dict_get_def to_dict_def)
next
  case False
  then have "i \<notin> fst ` set (zip [0..<length col] col)"
    by (auto dest: set_zip_leftD)
  then have none: "map_of (zip [0..<length col] col) i = None"
    by (simp add: map_of_eq_None_iff)
  show ?thesis unfolding dict_get_def to_dict_def none using False by simp
qed


lemma traverse_Inr_eq_map:
  assumes "traverse f l = Inr bs" and "\<And>x. x \<in> set l \<Longrightarrow> \<forall>y. f x = Inr y \<longrightarrow> y = g x"
  shows "bs = map g l"
  using assms by (induction l arbitrary: bs) (auto split: sum.splits)

lemma traverse_upt_bound:
  assumes "traverse f [0..<n] = Inr bs" and "\<And>i. i < n \<Longrightarrow> \<forall>y. f i = Inr y \<longrightarrow> i < k"
  shows "n \<le> k"
proof (cases n)
  case 0
  then show ?thesis by simp
next
  case (Suc n')
  have "f ([0..<n] ! n') = Inr (bs ! n')"
    using traverse_InrD(2)[OF assms(1), of n'] Suc by simp
  then have "f n' = Inr (bs ! n')" using Suc by (simp del: upt_Suc)
  then have "n' < k" using assms(2)[of n'] Suc by blast
  then show ?thesis using Suc by simp
qed

lemma demand_constraint_eq:
  "demand_constraint inst j =
     (if j < length (customers inst)
      then Inr \<lparr>c_name = ''demand_'' @ show_nat j,
                c_lhs = lpSum (map (\<lambda>i. X i j) [0..<n_sites inst]),
                c_sense = GE,
                c_rhs = \<lparr>terms = [], constant_part = demand (customers inst ! j)\<rparr>\<rparr>
      else Inl KeyError)"
  by (simp add: demand_constraint_def row_def)

lemma capacity_constraint_eq:
  "capacity_constraint inst (to_dict (map capacity (sites inst))) td i =
     (if i < length (sites inst)
      then Inr \<lparr>c_name = ''capacity_'' @ show_nat i,
                c_lhs = lpSum (map (\<lambda>j. X i j) [0..<n_customers inst]),
                c_sense = LE,
                c_rhs = lpSum_products [(min (capacity (sites inst ! i)) td, Y i)]\<rparr>
      else Inl KeyError)"
  by (simp add: capacity_constraint_def dict_get_to_dict)

lemma Model_init_InrD:
  assumes "Model_init M inst = Inr m"
  shows "data m = inst"
    and "site_fixed_costs m = to_dict (map fixed_cost (sites inst))"
    and "site_capacities m = to_dict (map capacity (sites inst))"
    and "total_demand m = series_sum (demand_dtype inst) (map demand (customers inst))"
    and "total_capacity m = series_sum (capacity_dtype inst) (map capacity (sites inst))"
    and "status m = NotSolved"
    and "varValue m = (\<lambda>_. None)"
    and "solver_calls m = []"
    and "traverse (shipping_cost_entry M inst)
           (List.product [0..<n_sites inst] [0..<n_customers inst]) = Inr (shipping_costs m)"
    and "objective m =
           lpSum_products (map (\<lambda>i. (fixed_cost (sites inst ! i), Y i)) [0..<n_sites inst]
                    @ map (\<lambda>(ij, c). (c, X (fst ij) (snd ij))) (shipping_costs m))"
    and "constraints m =
           map (\<lambda>j. \<lparr>c_name = ''demand_'' @ show_nat j,
                      c_lhs = lpSum (map (\<lambda>i. X i j) [0..<n_sites inst]),
                      c_sense = GE,
                      c_rhs = \<lparr>terms = [], constant_part = demand (customers inst ! j)\<rparr>\<rparr>)
               [0..<n_customers inst]
           @ map (\<lambda>i. \<lparr>c_name = ''capacity_'' @ show_nat i,
                        c_lhs = lpSum (map (\<lambda>j. X i j) [0..<n_customers inst]),
                        c_sense = LE,
                        c_rhs = lpSum_products [(min (capacity (sites inst ! i))
                                      (series_sum (demand_dtype inst) (map demand (customers inst))), Y i)]\<rparr>)
               [0..<n_sites inst]"
    and "n_sites inst \<le> length (sites inst)"
    and "n_customers inst \<le> length (customers inst)"
proof -
  let ?sfc = "to_dict (map fixed_cost (sites inst))"
  let ?caps = "to_dict (map capacity (sites inst))"
  let ?td = "series_sum (demand_dtype inst) (map demand (customers inst))"
  from assms obtain sc ft dcs ccs where
    sc: "traverse (shipping_cost_entry M inst)
           (List.product [0..<n_sites inst] [0..<n_customers inst]) = Inr sc"
    and ft: "traverse (\<lambda>i. bindE (dict_get ?sfc i) (\<lambda>f. Inr (f, Y i))) [0..<n_sites inst] = Inr ft"
    and dcs: "traverse (demand_constraint inst) [0..<n_customers inst] = Inr dcs"
    and ccs: "traverse (capacity_constraint inst ?caps ?td) [0..<n_sites inst] = Inr ccs"
    and m: "m = \<lparr>data = inst, site_fixed_costs = ?sfc, site_capacities = ?caps,
                 total_demand = ?td,
                 total_capacity = series_sum (capacity_dtype inst) (map capacity (sites inst)),
                 shipping_costs = sc,
                 objective = lpSum_products (ft @ map (\<lambda>(ij, c). (c, X (fst ij) (snd ij))) sc),
                 constraints = dcs @ ccs, status = NotSolved,
                 varValue = (\<lambda>_. None), solver_calls = []\<rparr>"
    unfolding Model_init_def Let_def bindE_eq_Inr by auto
  show ns: "n_sites inst \<le> length (sites inst)"
    by (rule traverse_upt_bound[OF ccs]) (simp add: capacity_constraint_eq)
  show nc: "n_customers inst \<le> length (customers inst)"
    by (rule traverse_upt_bound[OF dcs]) (simp add: demand_constraint_eq)
  have ft': "ft = map (\<lambda>i. (fixed_cost (sites inst ! i), Y i)) [0..<n_sites inst]"
    by (rule traverse_Inr_eq_map[OF ft]) (use ns in \<open>auto simp: dict_get_to_dict\<close>)
  have dcs': "dcs = map (\<lambda>j. \<lparr>c_name = ''demand_'' @ show_nat j,
                      c_lhs = lpSum (map (\<lambda>i. X i j) [0..<n_sites inst]),
                      c_sense = GE,
                      c_rhs = \<lparr>terms = [], constant_part = demand (customers inst ! j)\<rparr>\<rparr>)
               [0..<n_customers inst]"
    by (rule traverse_Inr_eq_map[OF dcs]) (use nc in \<open>auto simp: demand_constraint_eq\<close>)
  have ccs': "ccs = map (\<lambda>i. \<lparr>c_name = ''capacity_'' @ show_nat i,
                        c_lhs = lpSum (map (\<lambda>j. X i j) [0..<n_customers inst]),
                        c_sense = LE,
                        c_rhs = lpSum_products [(min (capacity (sites inst ! i)) ?td, Y i)]\<rparr>)
               [0..<n_sites inst]"
    by (rule traverse_Inr_eq_map[OF ccs]) (use ns in \<open>auto simp: capacity_constraint_eq\<close>)
  show "data m = inst" by (simp add: m)
  show "site_fixed_costs m = ?sfc" by (simp add: m)
  show "site_capacities m = ?caps" by (simp add: m)
  show "total_demand m = ?td" by (simp add: m)
  show "total_capacity m = series_sum (capacity_dtype inst) (map capacity (sites inst))" by (simp add: m)
  show "status m = NotSolved" by (simp add: m)
  show "varValue m = (\<lambda>_. None)" by (simp add: m)
  show "solver_calls m = []" by (simp add: m)
  show "traverse (shipping_cost_entry M inst)
           (List.product [0..<n_sites inst] [0..<n_customers inst]) = Inr (shipping_costs m)"
    by (simp add: m sc)
  show "objective m =
           lpSum_products (map (\<lambda>i. (fixed_cost (sites inst ! i), Y i)) [0..<n_sites inst]
                    @ map (\<lambda>(ij, c). (c, X (fst ij) (snd ij))) (shipping_costs m))"
    by (simp add: m ft')
  show "constraints m =
           map (\<lambda>j. \<lparr>c_name = ''demand_'' @ show_nat j,
                      c_lhs = lpSum (map (\<lambda>i. X i j) [0..<n_sites inst]),
                      c_sense = GE,
                      c_rhs = \<lparr>terms = [], constant_part = demand (customers inst ! j)\<rparr>\<rparr>)
               [0..<n_customers inst]
           @ map (\<lambda>i. \<lparr>c_name = ''capacity_'' @ show_nat i,
                        c_lhs = lpSum (map (\<lambda>j. X i j) [0..<n_customers inst]),
                        c_sense = LE,
                        c_rhs = lpSum_products [(min (capacity (sites inst ! i))
                                      (series_sum (demand_dtype inst) (map demand (customers inst))), Y i)]\<rparr>)
               [0..<n_sites inst]"
    by (simp add: m dcs' ccs')
qed

section \<open>Auxiliary facts: construction of the model and \<open>solve\<close>\<close>

lemma haversine_distance_only_DistanceError:
  "haversine_distance M a b = Inl e \<Longrightarrow> e = DistanceError"
  by (auto simp: haversine_distance_def distance_of_v_def Let_def split: if_splits)

lemma shipping_cost_entry_eq:
  assumes "fst ij < length (sites inst)" and "snd ij < length (customers inst)"
  shows "shipping_cost_entry M inst ij =
           (case haversine_distance M (s_loc (sites inst ! fst ij)) (c_loc (customers inst ! snd ij)) of
              Inl e \<Rightarrow> Inl e
            | Inr d \<Rightarrow> Inr (ij, shipping_cost inst * d))"
  using assms by (simp add: shipping_cost_entry_def row_def bindE_def)

lemma Model_init_success:
  assumes ns: "n_sites inst \<le> length (sites inst)"
    and nc: "n_customers inst \<le> length (customers inst)"
    and d: "\<And>i j. i < n_sites inst \<Longrightarrow> j < n_customers inst \<Longrightarrow>
              \<exists>d. haversine_distance M (s_loc (sites inst ! i)) (c_loc (customers inst ! j)) = Inr d"
  shows "\<exists>m. Model_init M inst = Inr m"
proof -
  have sc: "traverse (shipping_cost_entry M inst)
              (List.product [0..<n_sites inst] [0..<n_customers inst])
            = Inr (map (\<lambda>ij. projr (shipping_cost_entry M inst ij))
                     (List.product [0..<n_sites inst] [0..<n_customers inst]))"
  proof (rule traverse_map)
    fix ij assume "ij \<in> set (List.product [0..<n_sites inst] [0..<n_customers inst])"
    then have i: "fst ij < n_sites inst" and j: "snd ij < n_customers inst"
      by auto
    from d[OF i j] obtain dd where
      "haversine_distance M (s_loc (sites inst ! fst ij)) (c_loc (customers inst ! snd ij)) = Inr dd"
      by blast
    then show "shipping_cost_entry M inst ij = Inr (projr (shipping_cost_entry M inst ij))"
      using i j ns nc by (simp add: shipping_cost_entry_eq)
  qed
  have ft: "traverse (\<lambda>i. bindE (dict_get (to_dict (map fixed_cost (sites inst))) i) (\<lambda>f. Inr (f, Y i)))
              [0..<n_sites inst]
            = Inr (map (\<lambda>i. (fixed_cost (sites inst ! i), Y i)) [0..<n_sites inst])"
    by (rule traverse_map) (use ns in \<open>simp add: dict_get_to_dict\<close>)
  have dcs: "traverse (demand_constraint inst) [0..<n_customers inst]
            = Inr (map (\<lambda>j. projr (demand_constraint inst j)) [0..<n_customers inst])"
    by (rule traverse_map) (use nc in \<open>simp add: demand_constraint_eq\<close>)
  have ccs: "traverse (capacity_constraint inst (to_dict (map capacity (sites inst)))
                (series_sum (demand_dtype inst) (map demand (customers inst)))) [0..<n_sites inst]
            = Inr (map (\<lambda>i. projr (capacity_constraint inst (to_dict (map capacity (sites inst)))
                (series_sum (demand_dtype inst) (map demand (customers inst))) i)) [0..<n_sites inst])"
    by (rule traverse_map) (use ns in \<open>simp add: capacity_constraint_eq\<close>)
  show ?thesis
    unfolding Model_init_def Let_def sc ft dcs ccs by simp
qed

lemma Model_init_shipping_Inl:
  assumes "traverse (shipping_cost_entry M inst)
             (List.product [0..<n_sites inst] [0..<n_customers inst]) = Inl e"
  shows "Model_init M inst = Inl e"
  unfolding Model_init_def Let_def assms by simp

lemma shipping_cost_entry_error:
  assumes "fst ij < length (sites inst)" and "snd ij < length (customers inst)"
    and "shipping_cost_entry M inst ij = Inl e"
  shows "e = DistanceError"
proof (cases "haversine_distance M (s_loc (sites inst ! fst ij)) (c_loc (customers inst ! snd ij))")
  case (Inl e0)
  then have "e0 = DistanceError" by (rule haversine_distance_only_DistanceError)
  moreover have "shipping_cost_entry M inst ij = Inl e0"
    by (simp add: shipping_cost_entry_eq[OF assms(1,2)] Inl)
  ultimately show ?thesis using assms(3) by simp
next
  case (Inr d)
  then have "shipping_cost_entry M inst ij = Inr (ij, shipping_cost inst * d)"
    by (simp add: shipping_cost_entry_eq[OF assms(1,2)])
  then show ?thesis using assms(3) by simp
qed

lemma Model_init_distance_error:
  assumes ns: "n_sites inst \<le> length (sites inst)"
    and nc: "n_customers inst \<le> length (customers inst)"
    and i: "i < n_sites inst" and j: "j < n_customers inst"
    and e: "haversine_distance M (s_loc (sites inst ! i)) (c_loc (customers inst ! j)) = Inl DistanceError"
  shows "Model_init M inst = Inl DistanceError"
proof -
  let ?ps = "List.product [0..<n_sites inst] [0..<n_customers inst]"
  have mem: "(i, j) \<in> set ?ps" using i j by simp
  have il: "i < length (sites inst)" using i ns by simp
  have jl: "j < length (customers inst)" using j nc by simp
  have "shipping_cost_entry M inst (i, j) = Inl DistanceError"
    using il jl e by (simp add: shipping_cost_entry_def row_def)
  from traverse_InlI[where f = "shipping_cost_entry M inst" and x = "(i, j)", OF mem this]
  obtain e' where e': "traverse (shipping_cost_entry M inst) ?ps = Inl e'" ..
  from traverse_InlD[where f = "shipping_cost_entry M inst", OF e']
  obtain ij where ij: "ij \<in> set ?ps" and l: "shipping_cost_entry M inst ij = Inl e'" ..
  from ij have "fst ij < n_sites inst" and "snd ij < n_customers inst"
    by (simp_all add: mem_Times_iff)
  then have "fst ij < length (sites inst)" and "snd ij < length (customers inst)"
    using ns nc by simp_all
  then have "e' = DistanceError"
    using l by (rule shipping_cost_entry_error)
  then show ?thesis
    using Model_init_shipping_Inl[OF e'] by simp
qed


lemma super_solve_SomeD:
  assumes "super_solve be m = Some m'"
  shows "\<exists>r. m' = assign_solution m r"
  using assms by (auto simp: super_solve_def)

lemma solve_Some_cases:
  assumes "solve fmt be t m = Some (m', st, msg)"
  shows "(m' = m \<and> st = Infeasible) \<or> (\<exists>vals. m' = assign_solution m (st, vals))"
proof (cases "total_demand m > total_capacity m")
  case True
  then show ?thesis using assms by (simp add: solve_def)
next
  case False
  show ?thesis
  proof (cases "super_solve be m")
    case None
    then show ?thesis using assms False by (simp add: solve_def)
  next
    case (Some m1)
    then have "m' = m1 \<and> st = status m1"
      using assms False by (auto simp add: solve_def split: if_splits)
    then have eq: "m' = m1" and st: "st = status m1" by blast+
    from super_solve_SomeD[OF Some] obtain r where r: "m1 = assign_solution m r" by blast
    have "status m1 = fst r" unfolding r by (simp add: assign_solution_def)
    then have "m1 = assign_solution m (st, snd r)" using r st by simp
    then show ?thesis using eq by blast
  qed
qed

lemma assign_solution_fields:
  shows "data (assign_solution m r) = data m"
    and "site_fixed_costs (assign_solution m r) = site_fixed_costs m"
    and "shipping_costs (assign_solution m r) = shipping_costs m"
    and "constraints (assign_solution m r) = constraints m"
    and "total_demand (assign_solution m r) = total_demand m"
    and "total_capacity (assign_solution m r) = total_capacity m"
    and "site_capacities (assign_solution m r) = site_capacities m"
    and "status (assign_solution m r) = fst r"
    and "solver_calls (assign_solution m r) = solver_calls m @ [None]"
    and "varValue (assign_solution m r) (Y i) = snd r (Y i)"
    and "varValue (assign_solution m r) (X i j) = snd r (X i j)"
    and "varValue (assign_solution m r) Dummy = varValue m Dummy"
    and "objective (assign_solution m r) =
           (if terms (objective m) = [] then (objective m)\<lparr>terms := [(0, Dummy)]\<rparr>
            else objective m)"
  by (simp_all add: assign_solution_def)

lemma solve_SomeD:
  assumes "solve fmt be t m = Some (m', st, msg)"
  shows "data m' = data m" and "site_fixed_costs m' = site_fixed_costs m"
    and "shipping_costs m' = shipping_costs m"
    and "constraints m' = constraints m" and "total_demand m' = total_demand m"
    and "total_capacity m' = total_capacity m" and "site_capacities m' = site_capacities m"
proof -
  from solve_Some_cases[OF assms] obtain vals where
    "m' = m \<or> m' = assign_solution m (st, vals)"
    by blast
  then show "data m' = data m" and "site_fixed_costs m' = site_fixed_costs m"
    and "shipping_costs m' = shipping_costs m"
    and "constraints m' = constraints m" and "total_demand m' = total_demand m"
    and "total_capacity m' = total_capacity m" and "site_capacities m' = site_capacities m"
    by (auto simp: assign_solution_fields)
qed


section \<open>Auxiliary facts: \<open>get_solution\<close>\<close>

lemma read_var_eq: "read_var vv x = Inr v \<longleftrightarrow> vv x = Some v"
  by (simp add: read_var_def split: option.splits)

lemma dict_get_member:
  assumes "distinct (map fst d)" and "kv \<in> set d"
  shows "dict_get d (fst kv) = Inr (snd kv)"
proof -
  have "map_of d (fst kv) = Some (snd kv)"
    using assms by (intro map_of_is_SomeI) simp_all
  then show ?thesis by (simp add: dict_get_def)
qed

lemma distinct_fst_above_eps: "distinct (map fst d) \<Longrightarrow> distinct (map fst (above_eps d))"
  by (simp add: above_eps_def distinct_map_filter)

lemma shipping_costs_form:
  assumes "traverse (shipping_cost_entry M inst) ps = Inr sc"
  shows "sc = map (\<lambda>ij. (ij, snd (projr (shipping_cost_entry M inst ij)))) ps"
proof (rule traverse_Inr_eq_map[OF assms])
  fix x assume "x \<in> set ps"
  show "\<forall>y. shipping_cost_entry M inst x = Inr y \<longrightarrow> y = (x, snd (projr (shipping_cost_entry M inst x)))"
    by (auto simp: shipping_cost_entry_def bindE_eq_Inr)
qed

lemma get_solution_InrD:
  assumes gs: "get_solution m = Inr s"
    and sfc: "site_fixed_costs m = to_dict (map fixed_cost (sites (data m)))"
    and sc: "shipping_costs m = map (\<lambda>ij. (ij, uc ij))
               (List.product [0..<n_sites (data m)] [0..<n_customers (data m)])"
  shows "\<And>i. i < n_sites (data m) \<Longrightarrow> varValue m (Y i) \<noteq> None"
    and "\<And>ij. ij \<in> set (List.product [0..<n_sites (data m)] [0..<n_customers (data m)])
           \<Longrightarrow> varValue m (X (fst ij) (snd ij)) \<noteq> None"
    and "ys s = above_eps (map (\<lambda>i. (i, the (varValue m (Y i)))) [0..<n_sites (data m)])"
    and "xs s = above_eps (map (\<lambda>ij. (ij, the (varValue m (X (fst ij) (snd ij)))))
                   (List.product [0..<n_sites (data m)] [0..<n_customers (data m)]))"
    and "fixed_costs s = sum_list (map (\<lambda>iv. fixed_cost (sites (data m) ! fst iv) * snd iv) (ys s))"
    and "variable_costs s = sum_list (map (\<lambda>e. uc (fst e) * snd e) (xs s))"
    and "sol_value s = pulp_value (varValue m) (objective m)"
    and "sol_status s = status m"
proof -
  let ?S = "[0..<n_sites (data m)]"
  let ?P = "List.product [0..<n_sites (data m)] [0..<n_customers (data m)]"
  let ?fy = "\<lambda>i. bindE (read_var (varValue m) (Y i)) (\<lambda>v. Inr (i, v))"
  let ?fx = "\<lambda>ij. bindE (read_var (varValue m) (X (fst ij) (snd ij))) (\<lambda>v. Inr (ij, v))"
  from gs obtain y_all x_all fcs vcs where
    ya: "traverse ?fy ?S = Inr y_all"
    and xa: "traverse ?fx ?P = Inr x_all"
    and fcs: "traverse (\<lambda>iv. bindE (dict_get (site_fixed_costs m) (fst iv))
                 (\<lambda>f. bindE (dict_get (above_eps y_all) (fst iv)) (\<lambda>v. Inr (f * v))))
               (above_eps y_all) = Inr fcs"
    and vcs: "traverse (\<lambda>e. bindE (dict_get (shipping_costs m) (fst e))
                 (\<lambda>c. bindE (dict_get (above_eps x_all) (fst e)) (\<lambda>v. Inr (c * v))))
               (above_eps x_all) = Inr vcs"
    and s: "ys s = above_eps y_all" "xs s = above_eps x_all"
           "fixed_costs s = sum_list fcs" "variable_costs s = sum_list vcs"
           "sol_value s = pulp_value (varValue m) (objective m)" "sol_status s = status m"
    unfolding get_solution_def Let_def bindE_eq_Inr by auto
  show yv: "\<And>i. i < n_sites (data m) \<Longrightarrow> varValue m (Y i) \<noteq> None"
  proof -
    fix i assume "i < n_sites (data m)"
    then have "?fy (?S ! i) = Inr (y_all ! i)"
      using traverse_InrD(2)[OF ya, of i] by simp
    then show "varValue m (Y i) \<noteq> None"
      using \<open>i < n_sites (data m)\<close> by (auto simp: bindE_eq_Inr read_var_eq)
  qed
  show xv: "\<And>ij. ij \<in> set ?P \<Longrightarrow> varValue m (X (fst ij) (snd ij)) \<noteq> None"
  proof -
    fix ij assume "ij \<in> set ?P"
    then obtain k where k: "k < length ?P" "?P ! k = ij"
      by (meson in_set_conv_nth)
    then have "?fx ij = Inr (x_all ! k)"
      using traverse_InrD(2)[OF xa, of k] by simp
    then show "varValue m (X (fst ij) (snd ij)) \<noteq> None"
      by (auto simp: bindE_eq_Inr read_var_eq)
  qed
  have ya': "y_all = map (\<lambda>i. (i, the (varValue m (Y i)))) ?S"
    by (rule traverse_Inr_eq_map[OF ya]) (auto simp: bindE_eq_Inr read_var_eq)
  have xa': "x_all = map (\<lambda>ij. (ij, the (varValue m (X (fst ij) (snd ij))))) ?P"
    by (rule traverse_Inr_eq_map[OF xa]) (auto simp: bindE_eq_Inr read_var_eq)
  show "ys s = above_eps (map (\<lambda>i. (i, the (varValue m (Y i)))) ?S)"
    by (simp add: s ya')
  show "xs s = above_eps (map (\<lambda>ij. (ij, the (varValue m (X (fst ij) (snd ij))))) ?P)"
    by (simp add: s xa')
  have dy: "distinct (map fst (above_eps y_all))"
    by (rule distinct_fst_above_eps) (simp add: ya' comp_def)
  have dx: "distinct (map fst (above_eps x_all))"
    by (rule distinct_fst_above_eps) (simp add: xa' comp_def distinct_product)
  have "fcs = map (\<lambda>iv. fixed_cost (sites (data m) ! fst iv) * snd iv) (above_eps y_all)"
  proof (rule traverse_Inr_eq_map[OF fcs])
    fix iv assume iv: "iv \<in> set (above_eps y_all)"
    show "\<forall>y. bindE (dict_get (site_fixed_costs m) (fst iv))
                 (\<lambda>f. bindE (dict_get (above_eps y_all) (fst iv)) (\<lambda>v. Inr (f * v))) = Inr y
              \<longrightarrow> y = fixed_cost (sites (data m) ! fst iv) * snd iv"
      using dict_get_member[OF dy iv]
      by (auto simp: bindE_eq_Inr sfc dict_get_to_dict split: if_splits)
  qed
  then show "fixed_costs s = sum_list (map (\<lambda>iv. fixed_cost (sites (data m) ! fst iv) * snd iv) (ys s))"
    by (simp add: s)
  have "vcs = map (\<lambda>e. uc (fst e) * snd e) (above_eps x_all)"
  proof (rule traverse_Inr_eq_map[OF vcs])
    fix e assume e: "e \<in> set (above_eps x_all)"
    then have "fst e \<in> set ?P"
      by (auto simp: above_eps_def xa')
    then have "map_of (shipping_costs m) (fst e) = Some (uc (fst e))"
      unfolding sc by (simp add: map_of_map_restrict)
    then have "dict_get (shipping_costs m) (fst e) = Inr (uc (fst e))"
      by (simp add: dict_get_def)
    then show "\<forall>y. bindE (dict_get (shipping_costs m) (fst e))
                 (\<lambda>c. bindE (dict_get (above_eps x_all) (fst e)) (\<lambda>v. Inr (c * v))) = Inr y
              \<longrightarrow> y = uc (fst e) * snd e"
      using dict_get_member[OF dx e] by (simp add: bindE_eq_Inr)
  qed
  then show "variable_costs s = sum_list (map (\<lambda>e. uc (fst e) * snd e) (xs s))"
    by (simp add: s)
  show "sol_value s = pulp_value (varValue m) (objective m)" by (rule s)
  show "sol_status s = status m" by (rule s)
qed



lemma haversine_same_point:
  "haversine_distance real_math \<lparr>ident = a, lat = 0, lon = 0\<rparr> \<lparr>ident = b, lat = 0, lon = 0\<rparr> = Inr 0"
  by (simp add: haversine_distance_def loc_eq_def cos_law_def real_math_def distance_of_v_def clamp_v_def)

lemma Model_init_inst_A: "\<exists>m. Model_init real_math inst_A = Inr m"
  by (rule Model_init_success) (simp_all add: inst_A_def haversine_same_point)






lemma totals_inst_A:
  "series_sum (demand_dtype inst_A) (map demand (customers inst_A)) = 10"
  "series_sum (capacity_dtype inst_A) (map capacity (sites inst_A)) = 100"
  by (simp_all add: inst_A_def series_sum_def wrap_int64_def)








section \<open>The feasibility check before the solver\<close>




section \<open>The time limit of \<open>Model.solve\<close>\<close>

text \<open>
  Claim C2. \<open>Model.solve\<close> has the parameter \<open>timeout_sec\<close> with default 120, but it calls
  \<open>super().solve()\<close> without it: the result is the same for every value of the
  parameter, the back end is handed no time limit, and with a back end that stops only
  at a time limit the call for the instance of scenario A never returns.
\<close>

theorem solve_drops_timeout:
  "solve fmt be timeout_sec m = solve fmt be default_timeout_sec m
   \<and> super_solve be m = map_option (assign_solution m) (be m None)
   \<and> isl (Model_init real_math inst_A) = False
   \<and> solve str_int stops_at_limit default_timeout_sec (projr (Model_init real_math inst_A)) = None"
proof -
  obtain m0 where m0: "Model_init real_math inst_A = Inr m0"
    using Model_init_inst_A by blast
  have le: "\<not> total_demand m0 > total_capacity m0"
    by (simp add: Model_init_InrD(4,5)[OF m0] totals_inst_A)
  have "solve str_int stops_at_limit default_timeout_sec m0 = None"
    using le by (simp add: solve_def super_solve_def stops_at_limit_def)
  moreover have "super_solve be m = map_option (assign_solution m) (be m None)"
    by (simp add: super_solve_def)
  moreover have "solve fmt be timeout_sec m = solve fmt be default_timeout_sec m"
    by (simp add: solve_def)
  ultimately show ?thesis
    by (simp add: m0)
qed

section \<open>The tolerance band of the distance\<close>

text \<open>
  Claim C3, as the specification states it, closes the band at \<open>1.01\<close> and at \<open>-1.01\<close>.
  The comparisons of the source are strict (\<open>1.0 < v < 1.01\<close> and
  \<open>-1.01 < v < -1.0\<close>): at \<open>v = 1.01\<close> and at \<open>v = -1.01\<close> the value is not replaced, and
  the function raises.
\<close>

theorem clamp_closed_bound_counterexample:
  "clamp_v 1.01 = 1.01 \<and> distance_of_v real_math 1.01 = Inl DistanceError
   \<and> clamp_v (- 1.01) = - 1.01 \<and> distance_of_v real_math (- 1.01) = Inl DistanceError"
  by (simp add: distance_of_v_def clamp_v_def)

text \<open>
  Claim C3, amended: a value \<open>v\<close> strictly between \<open>1.0\<close> and \<open>1.01\<close> is treated as
  \<open>1.0\<close>, a value strictly between \<open>-1.01\<close> and \<open>-1.0\<close> as \<open>-1.0\<close>, a value from \<open>-1\<close> to
  \<open>1\<close> is kept, and the function then returns \<open>6378 * acos(v)\<close>.
\<close>

theorem clamp_open_band:
  "(1 < v \<and> v < 1.01 \<longrightarrow>
      clamp_v v = 1 \<and> distance_of_v M v = Inr (6378 * m_acos M 1))
   \<and> (- 1.01 < v \<and> v < - 1 \<longrightarrow>
      clamp_v v = - 1 \<and> distance_of_v M v = Inr (6378 * m_acos M (- 1)))
   \<and> (- 1 \<le> v \<and> v \<le> 1 \<longrightarrow>
      clamp_v v = v \<and> distance_of_v M v = Inr (6378 * m_acos M v))
   \<and> (\<not> loc_eq a b \<longrightarrow>
      haversine_distance M a b = distance_of_v M (cos_law M a b))"
  by (simp add: distance_of_v_def clamp_v_def haversine_distance_def)

theorem clamp_open_band_witness:
  "clamp_v 1.005 = 1 \<and> distance_of_v real_math 1.005 = Inr 0
   \<and> clamp_v (- 1.005) = - 1 \<and> distance_of_v real_math (- 1.005) = Inr (6378 * pi)
   \<and> clamp_v 0 = 0 \<and> distance_of_v real_math 0 = Inr (6378 * (pi / 2))
   \<and> haversine_distance real_math \<lparr>ident = 0, lat = 0, lon = 0\<rparr> \<lparr>ident = 1, lat = 0, lon = 90\<rparr>
       = Inr (6378 * (pi / 2))"
proof -
  have c: "cos_law real_math \<lparr>ident = 0, lat = 0, lon = 0\<rparr> \<lparr>ident = 1, lat = 0, lon = 90\<rparr> = 0"
    by (simp add: cos_law_def real_math_def)
  have n: "\<not> loc_eq \<lparr>ident = 0, lat = 0, lon = 0\<rparr> \<lparr>ident = 1, lat = 0, lon = 90\<rparr>"
    by (simp add: loc_eq_def)
  show ?thesis
    using clamp_open_band[of "1.005" real_math "\<lparr>ident = 0, lat = 0, lon = 0\<rparr>"
                             "\<lparr>ident = 1, lat = 0, lon = 90\<rparr>"]
          clamp_open_band[of "- 1.005" real_math "\<lparr>ident = 0, lat = 0, lon = 0\<rparr>"
                             "\<lparr>ident = 1, lat = 0, lon = 90\<rparr>"]
          clamp_open_band[of 0 real_math "\<lparr>ident = 0, lat = 0, lon = 0\<rparr>"
                             "\<lparr>ident = 1, lat = 0, lon = 90\<rparr>"]
          n c
    by (simp add: real_math_def)
qed

section \<open>The exception of the distance\<close>

text \<open>
  Claim C4. \<open>haversine_distance\<close> raises its exception exactly when the cosine-law value
  is computed and lies outside \<open>[-1, 1]\<close> after the two tolerance branches; it raises no
  other exception and then returns no number; and \<open>Model.__init__\<close>, the caller, does not
  catch it: when the distance of a site and a customer of the instance raises, the
  construction of the model ends with that exception.
\<close>

theorem distance_error_iff:
  "(haversine_distance M a b = Inl DistanceError \<longleftrightarrow>
      \<not> loc_eq a b \<and> (clamp_v (cos_law M a b) < - 1 \<or> 1 < clamp_v (cos_law M a b)))
   \<and> (haversine_distance M a b = Inl e \<longrightarrow> e = DistanceError)
   \<and> (haversine_distance M a b = Inl e \<longrightarrow> (\<forall>d. haversine_distance M a b \<noteq> Inr d))
   \<and> (n_sites inst \<le> length (sites inst) \<and> n_customers inst \<le> length (customers inst)
        \<and> i < n_sites inst \<and> j < n_customers inst
        \<and> haversine_distance M (s_loc (sites inst ! i)) (c_loc (customers inst ! j))
            = Inl DistanceError
      \<longrightarrow> Model_init M inst = Inl DistanceError)"
proof -
  have 1: "haversine_distance M a b = Inl DistanceError \<longleftrightarrow>
      \<not> loc_eq a b \<and> (clamp_v (cos_law M a b) < - 1 \<or> 1 < clamp_v (cos_law M a b))"
    by (simp add: haversine_distance_def distance_of_v_def Let_def)
  have 2: "haversine_distance M a b = Inl e \<longrightarrow> e = DistanceError"
    using haversine_distance_only_DistanceError by blast
  have 3: "haversine_distance M a b = Inl e \<longrightarrow> (\<forall>d. haversine_distance M a b \<noteq> Inr d)"
    by simp
  have 4: "n_sites inst \<le> length (sites inst) \<and> n_customers inst \<le> length (customers inst)
        \<and> i < n_sites inst \<and> j < n_customers inst
        \<and> haversine_distance M (s_loc (sites inst ! i)) (c_loc (customers inst ! j))
            = Inl DistanceError
      \<longrightarrow> Model_init M inst = Inl DistanceError"
    using Model_init_distance_error by blast
  from 1 2 3 4 show ?thesis by blast
qed

lemma overshooting_same_point:
  "k \<noteq> l \<Longrightarrow>
   haversine_distance overshooting_math \<lparr>ident = k, lat = 0, lon = 0\<rparr> \<lparr>ident = l, lat = 0, lon = 0\<rparr>
     = Inl DistanceError"
  by (simp add: haversine_distance_def loc_eq_def cos_law_def overshooting_math_def
      distance_of_v_def clamp_v_def)

theorem distance_error_iff_witness:
  "haversine_distance overshooting_math \<lparr>ident = 1, lat = 0, lon = 0\<rparr> \<lparr>ident = 0, lat = 0, lon = 0\<rparr>
     = Inl DistanceError
   \<and> 1 < clamp_v (cos_law overshooting_math \<lparr>ident = 1, lat = 0, lon = 0\<rparr> \<lparr>ident = 0, lat = 0, lon = 0\<rparr>)
   \<and> Model_init overshooting_math inst_A = Inl DistanceError"
proof -
  let ?a = "\<lparr>ident = 1, lat = 0, lon = 0\<rparr>" and ?b = "\<lparr>ident = 0, lat = 0, lon = 0\<rparr>"
  have v: "cos_law overshooting_math ?a ?b = 5"
    by (simp add: cos_law_def overshooting_math_def)
  have h: "n_sites inst_A \<le> length (sites inst_A) \<and> n_customers inst_A \<le> length (customers inst_A)
        \<and> 0 < n_sites inst_A \<and> 0 < n_customers inst_A
        \<and> haversine_distance overshooting_math (s_loc (sites inst_A ! 0)) (c_loc (customers inst_A ! 0))
            = Inl DistanceError"
    by (simp add: inst_A_def overshooting_same_point)
  have c: "clamp_v 5 = 5" by (simp add: clamp_v_def)
  have e1: "haversine_distance overshooting_math ?a ?b = Inl DistanceError"
    by (rule overshooting_same_point) simp
  have cl: "1 < clamp_v (cos_law overshooting_math ?a ?b)"
    unfolding v c by simp
  have "Model_init overshooting_math inst_A = Inl DistanceError"
    using distance_error_iff[of overshooting_math ?a ?b DistanceError inst_A 0 0] h
    by blast
  with e1 cl show ?thesis by blast
qed

section \<open>Points with equal coordinates\<close>

text \<open>
  Claim C8. \<open>haversine_distance\<close> returns \<open>0.0\<close> at once only for one and the same \<open>Loc\<close>
  object: \<open>self == other\<close> compares identities, because \<open>Loc\<close> defines no \<open>__eq__\<close>. For
  two objects with the coordinates \<open>(40, -75)\<close> the formula is evaluated, and with the
  values that the library returns at 40 degrees the result is not \<open>0.0\<close>.
\<close>

theorem equal_coordinates_use_formula:
  "haversine_distance M \<lparr>ident = 0, lat = 40, lon = - 75\<rparr> \<lparr>ident = 1, lat = 40, lon = - 75\<rparr>
     = distance_of_v M (cos_law M \<lparr>ident = 0, lat = 40, lon = - 75\<rparr>
                                   \<lparr>ident = 1, lat = 40, lon = - 75\<rparr>)
   \<and> haversine_distance rounded_math \<lparr>ident = 0, lat = 40, lon = - 75\<rparr>
         \<lparr>ident = 1, lat = 40, lon = - 75\<rparr>
       = Inr (6378 * arccos (0.6427876096865393 * 0.6427876096865393
                             + 0.766044443118978 * 0.766044443118978))
   \<and> haversine_distance rounded_math \<lparr>ident = 0, lat = 40, lon = - 75\<rparr>
         \<lparr>ident = 1, lat = 40, lon = - 75\<rparr> \<noteq> Inr 0
   \<and> haversine_distance M \<lparr>ident = 0, lat = 40, lon = - 75\<rparr> \<lparr>ident = 0, lat = 40, lon = - 75\<rparr>
       = Inr 0"
proof -
  let ?a = "\<lparr>ident = 0, lat = 40, lon = - 75\<rparr>" and ?b = "\<lparr>ident = 1, lat = 40, lon = - 75\<rparr>"
  let ?v = "0.6427876096865393 * 0.6427876096865393 + 0.766044443118978 * 0.766044443118978 :: real"
  have p: "haversine_distance N ?a ?b = distance_of_v N (cos_law N ?a ?b)" for N
    by (simp add: haversine_distance_def loc_eq_def)
  have v: "cos_law rounded_math ?a ?b = ?v"
    by (simp add: cos_law_def rounded_math_def)
  have lt: "?v < 1" and gt: "- 1 \<le> ?v" by simp_all
  have d: "distance_of_v rounded_math ?v = Inr (6378 * arccos ?v)"
    using lt gt by (simp add: distance_of_v_def clamp_v_def rounded_math_def)
  have "arccos ?v \<noteq> 0"
  proof
    assume "arccos ?v = 0"
    then have "cos (arccos ?v) = 1" by simp
    moreover have "cos (arccos ?v) = ?v"
      by (rule cos_arccos) simp_all
    ultimately show False using lt by simp
  qed
  then have nz: "Inr (6378 * arccos ?v) \<noteq> (Inr 0 :: error + real)" by simp
  have s: "haversine_distance M ?a ?a = Inr 0"
    by (simp add: haversine_distance_def loc_eq_def)
  have r: "haversine_distance rounded_math ?a ?b = Inr (6378 * arccos ?v)"
    unfolding p v by (rule d)
  have nz': "haversine_distance rounded_math ?a ?b \<noteq> Inr 0"
    unfolding r by (rule nz)
  from p r nz' s show ?thesis by blast
qed

section \<open>Symmetry of the distance\<close>

text \<open>
  Claim C9. \<open>distance(a, b) == distance(b, a)\<close> for all points: with every \<open>math\<close> library
  whose cosine is an even function, and so with the exact functions.
\<close>

theorem haversine_distance_symmetric:
  "((\<forall>x. m_cos M (- x) = m_cos M x) \<longrightarrow> haversine_distance M a b = haversine_distance M b a)
   \<and> haversine_distance real_math a b = haversine_distance real_math b a"
proof -
  have sym: "haversine_distance N a b = haversine_distance N b a"
    if ev: "\<forall>x. m_cos N (- x) = m_cos N x" for N
  proof -
    have "m_cos N (lon b * m_pi N / 180 - lon a * m_pi N / 180)
            = m_cos N (- (lon a * m_pi N / 180 - lon b * m_pi N / 180))"
      by simp
    also have "\<dots> = m_cos N (lon a * m_pi N / 180 - lon b * m_pi N / 180)"
      using ev by blast
    finally have "cos_law N a b = cos_law N b a"
      by (simp add: cos_law_def mult.commute)
    then show ?thesis
      by (auto simp add: haversine_distance_def loc_eq_def)
  qed
  have "\<forall>x. m_cos real_math (- x) = m_cos real_math x"
    by (simp add: real_math_def)
  then show ?thesis using sym by blast
qed

theorem haversine_distance_symmetric_witness:
  "(\<forall>x. m_cos real_math (- x) = m_cos real_math x)
   \<and> haversine_distance real_math \<lparr>ident = 0, lat = 0, lon = 0\<rparr> \<lparr>ident = 1, lat = 0, lon = 90\<rparr>
       = haversine_distance real_math \<lparr>ident = 1, lat = 0, lon = 90\<rparr> \<lparr>ident = 0, lat = 0, lon = 0\<rparr>"
  using haversine_distance_symmetric[of real_math "\<lparr>ident = 0, lat = 0, lon = 0\<rparr>"
          "\<lparr>ident = 1, lat = 0, lon = 90\<rparr>"]
  by (simp add: real_math_def)

section \<open>The capacity constraints\<close>








section \<open>Degenerate ranges in \<open>Instance.generate\<close>\<close>

lemma randint_degenerate: "0 < n \<Longrightarrow> randint g a a n = Inl ValueError"
  by (simp add: randint_def)

lemma randint_error: "randint g a b n = Inl e \<Longrightarrow> e = ValueError"
  by (simp add: randint_def split: if_splits)

lemma randint_proper:
  "proper_range r \<Longrightarrow> \<exists>v g'. randint g (fst r) (snd r) n = Inr (v, g') \<and> length v = n"
  by (auto simp: randint_def proper_range_def)

lemma get_random_us_locs_error: "get_random_us_locs Z g n = Inl e \<Longrightarrow> e = ValueError"
  by (simp add: get_random_us_locs_def split: if_splits)

lemma get_random_us_locs_ok:
  "n \<le> length Z \<Longrightarrow> \<exists>v g'. get_random_us_locs Z g n = Inr (v, g')"
  by (simp add: get_random_us_locs_def)

lemma generate_error:
  assumes "generate Z g nc dr ns cr fr ship = Inl e"
  shows "e = ValueError"
proof -
  show ?thesis
  proof (cases "get_random_us_locs Z g nc")
    case (Inl e1)
    then show ?thesis using assms get_random_us_locs_error[OF Inl]
      by (simp add: generate_def)
  next
    case (Inr r1)
    show ?thesis
    proof (cases "randint (snd r1) (fst dr) (snd dr) nc")
      case (Inl e2)
      then show ?thesis using assms Inr randint_error[OF Inl]
        by (simp add: generate_def split_beta)
    next
      case r2: (Inr r2)
      show ?thesis
      proof (cases "get_random_us_locs Z (snd r2) ns")
        case (Inl e3)
        then show ?thesis using assms Inr r2 get_random_us_locs_error[OF Inl]
          by (simp add: generate_def split_beta)
      next
        case r3: (Inr r3)
        let ?fc = "if fst fr = snd fr then Inr (replicate ns (fst fr), snd r3)
                   else randint (snd r3) (fst fr) (snd fr) ns"
        show ?thesis
        proof (cases ?fc)
          case (Inl e4)
          then have "e4 = ValueError"
            by (auto split: if_splits dest: randint_error)
          then show ?thesis using assms Inr r2 r3 Inl
            by (simp add: generate_def split_beta)
        next
          case r4: (Inr r4)
          show ?thesis
          proof (cases "randint (snd r4) (fst cr) (snd cr) ns")
            case (Inl e5)
            then show ?thesis using assms Inr r2 r3 r4 randint_error[OF Inl]
              by (simp add: generate_def split_beta)
          next
            case r5: (Inr r5)
            then show ?thesis using assms Inr r2 r3 r4
              by (simp add: generate_def split_beta)
          qed
        qed
      qed
    qed
  qed
qed

lemma generate_InrD:
  assumes "generate Z g nc dr ns cr fr ship = Inr r"
  shows "\<exists>g1 v g2. randint g1 (fst dr) (snd dr) nc = Inr (v, g2)"
    and "\<exists>g4 v g5. randint g4 (fst cr) (snd cr) ns = Inr (v, g5)"
    and "fst fr = snd fr \<Longrightarrow> map fixed_cost (sites (fst r)) = replicate ns (real_of_int (fst fr))"
    and "length (sites (fst r)) = ns" and "length (customers (fst r)) = nc"
    and "n_sites (fst r) = ns" and "n_customers (fst r) = nc"
proof -
  from assms obtain r1 r2 r3 r4 r5 where
    r1: "get_random_us_locs Z g nc = Inr r1"
    and r2: "randint (snd r1) (fst dr) (snd dr) nc = Inr r2"
    and r3: "get_random_us_locs Z (snd r2) ns = Inr r3"
    and r4: "(if fst fr = snd fr then Inr (replicate ns (fst fr), snd r3)
              else randint (snd r3) (fst fr) (snd fr) ns) = Inr r4"
    and r5: "randint (snd r4) (fst cr) (snd cr) ns = Inr r5"
    and r: "fst r = \<lparr>n_customers = nc,
             customers = map (\<lambda>j. \<lparr>c_lat = zip_lat (fst r1 ! j), c_lon = zip_lon (fst r1 ! j),
                                    c_loc = \<lparr>ident = j, lat = zip_lat (fst r1 ! j),
                                             lon = zip_lon (fst r1 ! j)\<rparr>,
                                    demand = real_of_int (fst r2 ! j), c_volume = None\<rparr>)
                             [0..<nc],
             demand_dtype = Int64,
             n_sites = ns,
             sites = map (\<lambda>i. \<lparr>s_lat = zip_lat (fst r3 ! i), s_lon = zip_lon (fst r3 ! i),
                                fixed_cost = real_of_int (fst r4 ! i),
                                capacity = real_of_int (fst r5 ! i),
                                s_loc = \<lparr>ident = nc + i, lat = zip_lat (fst r3 ! i),
                                         lon = zip_lon (fst r3 ! i)\<rparr>,
                                s_volume = None\<rparr>)
                         [0..<ns],
             capacity_dtype = Int64,
             shipping_cost = ship\<rparr>"
    unfolding generate_def bindE_eq_Inr split_beta by force
  show "\<exists>g1 v g2. randint g1 (fst dr) (snd dr) nc = Inr (v, g2)"
    using r2 by (metis prod.collapse)
  show "\<exists>g4 v g5. randint g4 (fst cr) (snd cr) ns = Inr (v, g5)"
    using r5 by (metis prod.collapse)
  show "length (sites (fst r)) = ns" and "length (customers (fst r)) = nc"
    and "n_sites (fst r) = ns" and "n_customers (fst r) = nc"
    by (simp_all add: r)
  show "map fixed_cost (sites (fst r)) = replicate ns (real_of_int (fst fr))" if "fst fr = snd fr"
  proof -
    have "fst r4 = replicate ns (fst fr)" using r4 that by auto
    then show ?thesis
      by (simp add: r list_eq_iff_nth_eq)
  qed
qed

lemma generate_success:
  assumes "nc \<le> length Z" and "ns \<le> length Z" and "proper_range dr" and "proper_range cr"
    and "fst fr = snd fr"
  shows "\<exists>r. generate Z g nc dr ns cr fr ship = Inr r"
proof -
  obtain v1 g1 where r1: "get_random_us_locs Z g nc = Inr (v1, g1)"
    using get_random_us_locs_ok[OF assms(1)] by blast
  obtain v2 g2 where r2: "randint g1 (fst dr) (snd dr) nc = Inr (v2, g2)"
    using randint_proper[OF assms(3)] by blast
  obtain v3 g3 where r3: "get_random_us_locs Z g2 ns = Inr (v3, g3)"
    using get_random_us_locs_ok[OF assms(2)] by blast
  obtain v5 g5 where r5: "randint g3 (fst cr) (snd cr) ns = Inr (v5, g5)"
    using randint_proper[OF assms(4)] by blast
  show ?thesis
    by (simp add: generate_def r1 r2 r3 r5 assms(5))
qed

text \<open>
  Claim C10. For at least one customer and one site, \<open>Instance.generate\<close> raises
  (\<open>ValueError\<close>) whenever the demand range or the capacity range is degenerate, since
  both are drawn by \<open>randint\<close>, which wants \<open>low < high\<close>. Only the fixed-cost range is
  guarded: when it is degenerate and the other two ranges are proper, the generation
  succeeds and every site gets the constant as its fixed cost.
\<close>

theorem generate_degenerate_ranges:
  "(0 < nc \<and> 0 < ns \<and> (fst dr = snd dr \<or> fst cr = snd cr)
      \<longrightarrow> generate Z g nc dr ns cr fr ship = Inl ValueError)
   \<and> (nc \<le> length Z \<and> ns \<le> length Z \<and> proper_range dr \<and> proper_range cr \<and> fst fr = snd fr
      \<longrightarrow> (\<exists>inst g'. generate Z g nc dr ns cr fr ship = Inr (inst, g')
             \<and> length (sites inst) = ns
             \<and> map fixed_cost (sites inst) = replicate ns (real_of_int (fst fr))))"
proof -
  have a: "generate Z g nc dr ns cr fr ship = Inl ValueError"
    if h: "0 < nc" "0 < ns" "fst dr = snd dr \<or> fst cr = snd cr"
  proof (cases "generate Z g nc dr ns cr fr ship")
    case (Inl e)
    then show ?thesis using generate_error[OF Inl] by simp
  next
    case (Inr r)
    from generate_InrD(1)[OF Inr] obtain g1 v g2 where
      d: "randint g1 (fst dr) (snd dr) nc = Inr (v, g2)" by blast
    from generate_InrD(2)[OF Inr] obtain g4 w g5 where
      c: "randint g4 (fst cr) (snd cr) ns = Inr (w, g5)" by blast
    from h(3) show ?thesis
    proof
      assume "fst dr = snd dr"
      then show ?thesis using d randint_degenerate[OF h(1), of g1 "snd dr"] by simp
    next
      assume "fst cr = snd cr"
      then show ?thesis using c randint_degenerate[OF h(2), of g4 "snd cr"] by simp
    qed
  qed
  have b: "\<exists>inst g'. generate Z g nc dr ns cr fr ship = Inr (inst, g')
             \<and> length (sites inst) = ns
             \<and> map fixed_cost (sites inst) = replicate ns (real_of_int (fst fr))"
    if h: "nc \<le> length Z" "ns \<le> length Z" "proper_range dr" "proper_range cr" "fst fr = snd fr"
  proof -
    from generate_success[OF h] obtain r where r: "generate Z g nc dr ns cr fr ship = Inr r"
      by blast
    have "generate Z g nc dr ns cr fr ship = Inr (fst r, snd r)" by (simp add: r)
    moreover have "length (sites (fst r)) = ns" by (rule generate_InrD(4)[OF r])
    moreover have "map fixed_cost (sites (fst r)) = replicate ns (real_of_int (fst fr))"
      by (rule generate_InrD(3)[OF r h(5)])
    ultimately show ?thesis by blast
  qed
  from a b show ?thesis by blast
qed

theorem generate_degenerate_ranges_witness:
  "generate two_zips zero_rng 1 (5, 5) 1 (1, 3) (7, 7) 1 = Inl ValueError
   \<and> generate two_zips zero_rng 1 (1, 3) 1 (5, 5) (7, 7) 1 = Inl ValueError
   \<and> (\<exists>inst g'. generate two_zips zero_rng 1 (1, 3) 1 (1, 3) (7, 7) 1 = Inr (inst, g')
        \<and> map fixed_cost (sites inst) = [7])"
proof -
  have p: "proper_range (1, 3)" by (simp add: proper_range_def)
  have l: "(1::nat) \<le> length two_zips" by (simp add: two_zips_def)
  have 1: "generate two_zips zero_rng 1 (5, 5) 1 (1, 3) (7, 7) 1 = Inl ValueError"
    using generate_degenerate_ranges[of 1 1 "(5, 5)" "(1, 3)" two_zips zero_rng "(7, 7)" 1]
    by simp
  have 2: "generate two_zips zero_rng 1 (1, 3) 1 (5, 5) (7, 7) 1 = Inl ValueError"
    using generate_degenerate_ranges[of 1 1 "(1, 3)" "(5, 5)" two_zips zero_rng "(7, 7)" 1]
    by simp
  have 3: "\<exists>inst g'. generate two_zips zero_rng 1 (1, 3) 1 (1, 3) (7, 7) 1 = Inr (inst, g')
        \<and> map fixed_cost (sites inst) = [7]"
    using generate_degenerate_ranges[of 1 1 "(1, 3)" "(1, 3)" two_zips zero_rng "(7, 7)" 1] p l
    by auto
  from 1 2 3 show ?thesis by blast
qed

section \<open>Extraction of the solution\<close>

lemma solved_model_facts:
  assumes init: "Model_init M inst = Inr m0"
    and sol: "solve fmt be t m0 = Some (m, st, msg)"
  shows "data m = inst"
    and "site_fixed_costs m = to_dict (map fixed_cost (sites (data m)))"
    and "shipping_costs m = map (\<lambda>ij. (ij, snd (projr (shipping_cost_entry M inst ij))))
           (List.product [0..<n_sites (data m)] [0..<n_customers (data m)])"
    and "terms (objective m0) =
           filter (\<lambda>t. fst t \<noteq> 0)
             (map (\<lambda>i. (fixed_cost (sites inst ! i), Y i)) [0..<n_sites inst]
              @ map (\<lambda>ij. (snd (projr (shipping_cost_entry M inst ij)), X (fst ij) (snd ij)))
                  (List.product [0..<n_sites inst] [0..<n_customers inst]))"
    and "constant_part (objective m0) = 0"
    and "n_sites inst \<le> length (sites inst)"
    and "n_customers inst \<le> length (customers inst)"
proof -
  show d: "data m = inst"
    using solve_SomeD(1)[OF sol] Model_init_InrD(1)[OF init] by simp
  show "site_fixed_costs m = to_dict (map fixed_cost (sites (data m)))"
    using solve_SomeD(2)[OF sol] Model_init_InrD(2)[OF init] d by simp
  have sc0: "shipping_costs m0 = map (\<lambda>ij. (ij, snd (projr (shipping_cost_entry M inst ij))))
           (List.product [0..<n_sites inst] [0..<n_customers inst])"
    by (rule shipping_costs_form[OF Model_init_InrD(9)[OF init]])
  show "shipping_costs m = map (\<lambda>ij. (ij, snd (projr (shipping_cost_entry M inst ij))))
           (List.product [0..<n_sites (data m)] [0..<n_customers (data m)])"
    unfolding d solve_SomeD(3)[OF sol] by (rule sc0)
  show "terms (objective m0) =
           filter (\<lambda>t. fst t \<noteq> 0)
             (map (\<lambda>i. (fixed_cost (sites inst ! i), Y i)) [0..<n_sites inst]
              @ map (\<lambda>ij. (snd (projr (shipping_cost_entry M inst ij)), X (fst ij) (snd ij)))
                  (List.product [0..<n_sites inst] [0..<n_customers inst]))"
    unfolding Model_init_InrD(10)[OF init] sc0 by (simp add: lpSum_products_def comp_def)
  show "constant_part (objective m0) = 0"
    unfolding Model_init_InrD(10)[OF init] by (simp add: lpSum_products_def)
  show "n_sites inst \<le> length (sites inst)" by (rule Model_init_InrD(12)[OF init])
  show "n_customers inst \<le> length (customers inst)" by (rule Model_init_InrD(13)[OF init])
qed

lemma get_solution_success:
  assumes sfc: "site_fixed_costs m = to_dict (map fixed_cost (sites (data m)))"
    and sc: "shipping_costs m = map (\<lambda>ij. (ij, uc ij))
               (List.product [0..<n_sites (data m)] [0..<n_customers (data m)])"
    and ns: "n_sites (data m) \<le> length (sites (data m))"
    and nc: "n_customers (data m) \<le> length (customers (data m))"
    and yv: "\<And>i. i < n_sites (data m) \<Longrightarrow> varValue m (Y i) \<noteq> None"
    and xv: "\<And>i j. i < n_sites (data m) \<Longrightarrow> j < n_customers (data m) \<Longrightarrow> varValue m (X i j) \<noteq> None"
  shows "\<exists>s. get_solution m = Inr s"
proof -
  let ?S = "[0..<n_sites (data m)]"
  let ?P = "List.product [0..<n_sites (data m)] [0..<n_customers (data m)]"
  let ?yall = "map (\<lambda>i. (i, the (varValue m (Y i)))) ?S"
  let ?xall = "map (\<lambda>ij. (ij, the (varValue m (X (fst ij) (snd ij))))) ?P"
  let ?inst' = "(data m)\<lparr>customers := map (\<lambda>x. (customers (data m) ! x)
                             \<lparr>c_volume := Some (sum_list (map snd (filter (\<lambda>e. snd (fst e) = x) (above_eps ?xall))))\<rparr>)
                          [0..<length (customers (data m))],
                       sites := map (\<lambda>x. (sites (data m) ! x)
                             \<lparr>s_volume := Some (sum_list (map snd (filter (\<lambda>e. fst (fst e) = x) (above_eps ?xall))))\<rparr>)
                          [0..<length (sites (data m))]\<rparr>"
  have t1: "traverse (\<lambda>i. bindE (read_var (varValue m) (Y i)) (\<lambda>v. Inr (i, v))) ?S = Inr ?yall"
  proof (rule traverse_map)
    fix i assume "i \<in> set ?S"
    then have "varValue m (Y i) \<noteq> None" using yv by simp
    then show "bindE (read_var (varValue m) (Y i)) (\<lambda>v. Inr (i, v)) = Inr (i, the (varValue m (Y i)))"
      by (auto simp: read_var_def)
  qed
  have t2: "traverse (\<lambda>ij. bindE (read_var (varValue m) (X (fst ij) (snd ij))) (\<lambda>v. Inr (ij, v))) ?P
              = Inr ?xall"
  proof (rule traverse_map)
    fix ij assume "ij \<in> set ?P"
    then have "fst ij < n_sites (data m)" and "snd ij < n_customers (data m)"
      by (simp_all add: mem_Times_iff)
    then have "varValue m (X (fst ij) (snd ij)) \<noteq> None" by (rule xv)
    then show "bindE (read_var (varValue m) (X (fst ij) (snd ij))) (\<lambda>v. Inr (ij, v))
                 = Inr (ij, the (varValue m (X (fst ij) (snd ij))))"
      by (auto simp: read_var_def)
  qed
  have xmem: "fst e \<in> set ?P" if "e \<in> set (above_eps ?xall)" for e
    using that by (auto simp: above_eps_def)
  have t3: "traverse (flow_of ?inst') (above_eps ?xall)
              = Inr (map (\<lambda>e. projr (flow_of ?inst' e)) (above_eps ?xall))"
  proof (rule traverse_map)
    fix e assume "e \<in> set (above_eps ?xall)"
    then have "fst e \<in> set ?P" by (rule xmem)
    then have "fst (fst e) < n_sites (data m)" and "snd (fst e) < n_customers (data m)"
      by (simp_all add: mem_Times_iff)
    then have "fst (fst e) < length (sites (data m))" and "snd (fst e) < length (customers (data m))"
      using ns nc by simp_all
    then show "flow_of ?inst' e = Inr (projr (flow_of ?inst' e))"
      by (simp add: flow_of_def row_def)
  qed
  have dy: "distinct (map fst (above_eps ?yall))"
    by (rule distinct_fst_above_eps) (simp add: comp_def)
  have dx: "distinct (map fst (above_eps ?xall))"
    by (rule distinct_fst_above_eps) (simp add: comp_def distinct_product)
  have t4: "traverse (\<lambda>iv. bindE (dict_get (site_fixed_costs m) (fst iv))
                 (\<lambda>f. bindE (dict_get (above_eps ?yall) (fst iv)) (\<lambda>v. Inr (f * v))))
               (above_eps ?yall)
            = Inr (map (\<lambda>iv. fixed_cost (sites (data m) ! fst iv) * snd iv) (above_eps ?yall))"
  proof (rule traverse_map)
    fix iv assume iv: "iv \<in> set (above_eps ?yall)"
    then have "fst iv < n_sites (data m)" by (auto simp: above_eps_def)
    then have "fst iv < length (sites (data m))" using ns by simp
    then have "dict_get (site_fixed_costs m) (fst iv) = Inr (fixed_cost (sites (data m) ! fst iv))"
      by (simp add: sfc dict_get_to_dict)
    then show "bindE (dict_get (site_fixed_costs m) (fst iv))
                 (\<lambda>f. bindE (dict_get (above_eps ?yall) (fst iv)) (\<lambda>v. Inr (f * v)))
               = Inr (fixed_cost (sites (data m) ! fst iv) * snd iv)"
      using dict_get_member[OF dy iv] by simp
  qed
  have t5: "traverse (\<lambda>e. bindE (dict_get (shipping_costs m) (fst e))
                 (\<lambda>c. bindE (dict_get (above_eps ?xall) (fst e)) (\<lambda>v. Inr (c * v))))
               (above_eps ?xall)
            = Inr (map (\<lambda>e. uc (fst e) * snd e) (above_eps ?xall))"
  proof (rule traverse_map)
    fix e assume e: "e \<in> set (above_eps ?xall)"
    then have "fst e \<in> set ?P" by (rule xmem)
    then have "map_of (shipping_costs m) (fst e) = Some (uc (fst e))"
      unfolding sc by (simp add: map_of_map_restrict)
    then have "dict_get (shipping_costs m) (fst e) = Inr (uc (fst e))"
      by (simp add: dict_get_def)
    then show "bindE (dict_get (shipping_costs m) (fst e))
                 (\<lambda>c. bindE (dict_get (above_eps ?xall) (fst e)) (\<lambda>v. Inr (c * v)))
               = Inr (uc (fst e) * snd e)"
      using dict_get_member[OF dx e] by simp
  qed
  show ?thesis
    unfolding get_solution_def Let_def t1 bindE_Inr t2 t3 t4 t5 by simp
qed

lemma haversine_equator_quarter:
  "haversine_distance real_math \<lparr>ident = k, lat = 0, lon = 0\<rparr> \<lparr>ident = l, lat = 0, lon = 90\<rparr>
     = (if k = l then Inr 0 else Inr (6378 * (pi / 2)))"
  by (simp add: haversine_distance_def loc_eq_def cos_law_def real_math_def distance_of_v_def clamp_v_def)

lemma Model_init_model_A: "Model_init real_math inst_A = Inr model_A"
  using Model_init_inst_A by (auto simp: model_A_def)

lemma Model_init_model_small: "Model_init real_math inst_small = Inr model_small"
proof -
  have "\<exists>m. Model_init real_math inst_small = Inr m"
    by (rule Model_init_success) (simp_all add: inst_small_def haversine_equator_quarter)
  then show ?thesis by (auto simp: model_small_def)
qed

lemma solve_optimal_with:
  assumes "\<not> total_demand m > total_capacity m"
  shows "solve fmt (optimal_with vals) t m
           = Some (assign_solution m (Optimal, vals), Optimal, ''Model optimal'')"
  using assms by (simp add: solve_def super_solve_def optimal_with_def assign_solution_fields)

lemma solve_model_A:
  "solve fmt (optimal_with vals_A) t model_A = Some (solved_A, Optimal, ''Model optimal'')"
proof -
  have "\<not> total_demand model_A > total_capacity model_A"
    by (simp add: Model_init_InrD(4,5)[OF Model_init_model_A] totals_inst_A)
  then show ?thesis
    by (simp add: solve_optimal_with solved_A_def)
qed

lemma solve_model_small:
  "solve fmt (optimal_with vals_small) t model_small = Some (solved_small, Optimal, ''Model optimal'')"
proof -
  have "\<not> total_demand model_small > total_capacity model_small"
    by (simp add: Model_init_InrD(4,5)[OF Model_init_model_small] inst_small_def series_sum_def)
  then show ?thesis
    by (simp add: solve_optimal_with solved_small_def)
qed

lemma get_solution_after_solve:
  assumes init: "Model_init M inst = Inr m0"
    and sol: "solve fmt be t m0 = Some (m, st, msg)"
    and yv: "\<And>i. varValue m (Y i) \<noteq> None"
    and xv: "\<And>i j. varValue m (X i j) \<noteq> None"
  shows "\<exists>s. get_solution m = Inr s"
proof (rule get_solution_success)
  note f = solved_model_facts[OF init sol]
  show "site_fixed_costs m = to_dict (map fixed_cost (sites (data m)))" by (rule f(2))
  show "shipping_costs m = map (\<lambda>ij. (ij, snd (projr (shipping_cost_entry M inst ij))))
           (List.product [0..<n_sites (data m)] [0..<n_customers (data m)])" by (rule f(3))
  show "n_sites (data m) \<le> length (sites (data m))" unfolding f(1) by (rule f(6))
  show "n_customers (data m) \<le> length (customers (data m))" unfolding f(1) by (rule f(7))
  show "\<And>i. i < n_sites (data m) \<Longrightarrow> varValue m (Y i) \<noteq> None" by (rule yv)
  show "\<And>i j. i < n_sites (data m) \<Longrightarrow> j < n_customers (data m) \<Longrightarrow> varValue m (X i j) \<noteq> None"
    by (rule xv)
qed

lemma get_solution_solved_A: "\<exists>s. get_solution solved_A = Inr s"
  by (rule get_solution_after_solve[OF Model_init_model_A solve_model_A])
     (simp_all add: solved_A_def assign_solution_fields vals_A_def)


lemma extraction_ys_fixed:
  assumes init: "Model_init M inst = Inr m0"
    and sol: "solve fmt be t m0 = Some (m, st, msg)"
    and gs: "get_solution m = Inr s"
  shows "ys s = filter (\<lambda>iv. snd iv > eps)
                  (map (\<lambda>i. (i, the (varValue m (Y i)))) [0..<n_sites inst])"
    and "fixed_costs s = sum_list (map (\<lambda>iv. fixed_cost (sites inst ! fst iv) * snd iv) (ys s))"
proof -
  note f = solved_model_facts[OF init sol]
  note g = get_solution_InrD[OF gs f(2) f(3)]
  show "ys s = filter (\<lambda>iv. snd iv > eps)
                  (map (\<lambda>i. (i, the (varValue m (Y i)))) [0..<n_sites inst])"
    using g(3) unfolding above_eps_def f(1) .
  show "fixed_costs s = sum_list (map (\<lambda>iv. fixed_cost (sites inst ! fst iv) * snd iv) (ys s))"
    using g(5) unfolding f(1) .
qed

lemma ys_solved_A:
  assumes "get_solution solved_A = Inr s"
  shows "ys s = [(0, 999999 / 1000000)]" and "fixed_costs s = 999999 / 1000"
proof -
  note e = extraction_ys_fixed[OF Model_init_model_A solve_model_A assms]
  have v: "varValue solved_A (Y 0) = Some (999999 / 1000000)"
    by (simp add: solved_A_def assign_solution_fields vals_A_def)
  show y: "ys s = [(0, 999999 / 1000000)]"
    unfolding e(1) by (simp add: inst_A_def v eps_def)
  show "fixed_costs s = 999999 / 1000"
    unfolding e(2) y by (simp add: inst_A_def)
qed

text \<open>
  Claim C5, as the specification states it, fails: \<open>get_solution\<close> stores the value the
  solver returned, not 1. For the instance of scenario A and a solver that reports
  \<open>Optimal\<close> with \<open>y[0] = 0.999999\<close> (a binary variable within the integrality tolerance)
  and \<open>x[0][0] = 10\<close>, the opened value recorded for site 0 is \<open>0.999999\<close> and the fixed
  costs are \<open>999.999\<close>, not \<open>1000\<close>.
\<close>

theorem opened_value_raw_counterexample:
  "Model_init real_math inst_A = Inr model_A
   \<and> solve str_int (optimal_with vals_A) default_timeout_sec model_A
       = Some (solved_A, Optimal, ''Model optimal'')
   \<and> map_sum id ys (get_solution solved_A) = Inr [(0, 999999 / 1000000)]
   \<and> map_sum id ys (get_solution solved_A) \<noteq> Inr [(0, 1)]
   \<and> map_sum id fixed_costs (get_solution solved_A) = Inr (999999 / 1000)
   \<and> map_sum id fixed_costs (get_solution solved_A) \<noteq> Inr (1000 * 1)"
proof -
  obtain s where s: "get_solution solved_A = Inr s"
    using get_solution_solved_A by blast
  have 1: "map_sum id ys (get_solution solved_A) = Inr [(0, 999999 / 1000000)]"
    unfolding s by (simp add: ys_solved_A(1)[OF s])
  have 2: "map_sum id fixed_costs (get_solution solved_A) = Inr (999999 / 1000)"
    unfolding s by (simp add: ys_solved_A(2)[OF s])
  have 3: "map_sum id ys (get_solution solved_A) \<noteq> Inr [(0, 1)]"
    unfolding 1 by simp
  have 4: "map_sum id fixed_costs (get_solution solved_A) \<noteq> Inr (1000 * 1)"
    unfolding 2 by simp
  from Model_init_model_A solve_model_A 1 2 3 4 show ?thesis by blast
qed

text \<open>
  Claim C5, amended: for every site \<open>i\<close> whose solver value \<open>y[i]\<close> exceeds \<open>eps = 1e-4\<close>,
  the extraction records the site with the value the solver returned, and for no other
  site; \<open>fixed_costs\<close> is the sum of \<open>fixed_cost[i]\<close> times that recorded value over the
  recorded sites.
\<close>

theorem opened_value_raw:
  assumes "Model_init M inst = Inr m0"
    and "solve fmt be t m0 = Some (m, st, msg)"
    and "get_solution m = Inr s"
  shows "ys s = filter (\<lambda>iv. snd iv > eps)
                  (map (\<lambda>i. (i, the (varValue m (Y i)))) [0..<n_sites inst])
    \<and> fixed_costs s = sum_list (map (\<lambda>iv. fixed_cost (sites inst ! fst iv) * snd iv) (ys s))"
  using extraction_ys_fixed[OF assms] by blast

theorem opened_value_raw_witness:
  "\<exists>s. Model_init real_math inst_A = Inr model_A
     \<and> solve str_int (optimal_with vals_A) default_timeout_sec model_A
         = Some (solved_A, Optimal, ''Model optimal'')
     \<and> get_solution solved_A = Inr s
     \<and> ys s = [(0, 999999 / 1000000)]
     \<and> fixed_costs s = 1000 * (999999 / 1000000)"
proof -
  obtain s where s: "get_solution solved_A = Inr s"
    using get_solution_solved_A by blast
  note t = opened_value_raw[OF Model_init_model_A
      solve_model_A[of str_int default_timeout_sec] s]
  have v: "varValue solved_A (Y 0) = Some (999999 / 1000000)"
    by (simp add: solved_A_def assign_solution_fields vals_A_def)
  have y: "ys s = [(0, 999999 / 1000000)]"
    using t by (simp add: inst_A_def v eps_def)
  have "fixed_costs s = 1000 * (999999 / 1000000)"
    using t unfolding y by (simp add: inst_A_def)
  with y s Model_init_model_A solve_model_A show ?thesis by blast
qed

section \<open>The decomposition of the objective value\<close>


















lemma inst_small_unique_feasible:
  assumes "feasible solved_small val"
  shows "val (Y 0) = 1" and "val (X 0 0) = 1 / 20000"
proof -
  note i = Model_init_model_small
  note sv = solve_model_small[of str_int default_timeout_sec]
  note f = solved_model_facts[OF i sv]
  have cs: "constraints solved_small = constraints model_small"
    by (rule solve_SomeD(4)[OF sv])
  from assms have "list_all (holds val) (constraints model_small)"
    and "list_all (\<lambda>i. val (Y i) = 0 \<or> val (Y i) = 1) [0..<n_sites inst_small]"
    unfolding feasible_def cs f(1) by simp_all
  then have "1 / 20000 \<le> val (X 0 0) \<and> val (X 0 0) \<le> (1 / 20000) * val (Y 0)"
    and c: "val (Y 0) = 0 \<or> val (Y 0) = 1"
    unfolding Model_init_InrD(11)[OF i]
    by (simp_all add: inst_small_def holds_def affine_eval_def lpSum_def lpSum_products_def
        series_sum_def)
  then have a: "1 / 20000 \<le> val (X 0 0)" and b: "val (X 0 0) \<le> (1 / 20000) * val (Y 0)"
    by blast+
  have "val (Y 0) \<noteq> 0"
  proof
    assume "val (Y 0) = 0"
    then have "val (X 0 0) \<le> 0" using b by simp
    then show False using a by simp
  qed
  then show y1: "val (Y 0) = 1" using c by blast
  show "val (X 0 0) = 1 / 20000" using a b unfolding y1 by simp
qed



end
